theory Spec2Isabelle
  imports Main "HOL-Library.Word"
begin

unbundle bit_operations_syntax

section \<open>The ARM32 assembler of Subzero (IceAssemblerARM32.cpp)\<close>

text \<open>
  A shallow embedding of the instruction encoder and of the label resolver of
  \<^verbatim>\<open>src/IceAssemblerARM32.cpp\<close>.

  \<^item> \<^verbatim>\<open>IValueT\<close> is \<^verbatim>\<open>uint32_t\<close> and \<^verbatim>\<open>IOffsetT\<close> is \<^verbatim>\<open>int32_t\<close>: both are 32-bit words here,
    and a signed reading is written \<open>sint\<close>, a signed right shift \<open>signed_drop_bit\<close>.
  \<^item> \<^verbatim>\<open>llvm::report_fatal_error\<close> and a failing \<^verbatim>\<open>assert\<close> end the run: both are values of
    type \<open>error\<close>, and a function that can reach one returns \<open>error + 'a\<close>.
    Assertions are modelled as checked.
  \<^item> The assembler object is its buffer: every emitter takes the buffer and returns the new
    one, or the error.
\<close>

type_synonym IValueT = "32 word"
type_synonym IOffsetT = "32 word"

datatype error = FatalError string | AssertFailed string

definition andThen :: "error + 'a \<Rightarrow> ('a \<Rightarrow> error + 'b) \<Rightarrow> error + 'b" where
  "andThen m f = (case m of Inl e \<Rightarrow> Inl e | Inr x \<Rightarrow> f x)"

definition check :: "bool \<Rightarrow> string \<Rightarrow> error + unit" where
  \<comment> \<open>\<^verbatim>\<open>assert(C)\<close>\<close>
  "check C what = (if C then Inr () else Inl (AssertFailed what))"

subsection \<open>Bits and field positions\<close>

definition B0 :: IValueT where "B0 = 1"
definition B1 :: IValueT where "B1 = push_bit 1 1"
definition B2 :: IValueT where "B2 = push_bit 2 1"
definition B3 :: IValueT where "B3 = push_bit 3 1"
definition B4 :: IValueT where "B4 = push_bit 4 1"

definition L :: IValueT where "L = push_bit 20 1"
definition W :: IValueT where "W = push_bit 21 1"
definition B :: IValueT where "B = push_bit 22 1"
definition U :: IValueT where "U = push_bit 23 1"
definition P :: IValueT where "P = push_bit 24 1"

definition kConditionShift :: nat where "kConditionShift = 28"
definition kLinkShift :: nat where "kLinkShift = 24"
definition kOpcodeShift :: nat where "kOpcodeShift = 21"
definition kRdShift :: nat where "kRdShift = 12"
definition kRmShift :: nat where "kRmShift = 0"
definition kRnShift :: nat where "kRnShift = 16"
definition kRsShift :: nat where "kRsShift = 8"
definition kSShift :: nat where "kSShift = 20"
definition kTypeShift :: nat where "kTypeShift = 25"

definition kImmed8Bits :: nat where "kImmed8Bits = 8"
definition kImmed8Shift :: nat where "kImmed8Shift = 0"
definition kRotateBits :: nat where "kRotateBits = 4"
definition kRotateShift :: nat where "kRotateShift = 8"

definition kShiftImmShift :: nat where "kShiftImmShift = 7"
definition kShiftImmBits :: nat where "kShiftImmBits = 5"
definition kShiftShift :: nat where "kShiftShift = 5"
definition kImmed12Bits :: nat where "kImmed12Bits = 12"
definition kImm12Shift :: nat where "kImm12Shift = 0"

definition kInstTypeDataRegister :: IValueT where "kInstTypeDataRegister = 0"
definition kInstTypeDataRegShift :: IValueT where "kInstTypeDataRegShift = 0"
definition kInstTypeDataImmediate :: IValueT where "kInstTypeDataImmediate = 1"
definition kInstTypeMemImmediate :: IValueT where "kInstTypeMemImmediate = 2"
definition kInstTypeRegisterShift :: IValueT where "kInstTypeRegisterShift = 3"

definition kWordSize :: IValueT where "kWordSize = 4"

definition kPCReadOffset :: IOffsetT where "kPCReadOffset = 8"
definition kBranchOffsetBits :: nat where "kBranchOffsetBits = 24"
definition kBranchOffsetMask :: IOffsetT where "kBranchOffsetMask = 0x00ffffff"

text \<open>
  Modelled from the spec: \<^verbatim>\<open>CondARM32::Cond\<close> (IceConditionCodesARM32.h) is not under
  \<^verbatim>\<open>src/\<close>. The spec has a 4-bit condition with 15 defined conditions and one reserved
  marker; the numbering is the architecture's, with the always-condition the value
  \<open>0xE\<close> of the word \<open>0xE3A00005\<close>.
\<close>

datatype Cond = EQ | NE | CS | CC | MI | PL | VS | VC | HI | LS | GE | LT | GT | LE | AL | kNone

fun encodeCondition :: "Cond \<Rightarrow> IValueT" where
  "encodeCondition EQ = 0"
| "encodeCondition NE = 1"
| "encodeCondition CS = 2"
| "encodeCondition CC = 3"
| "encodeCondition MI = 4"
| "encodeCondition PL = 5"
| "encodeCondition VS = 6"
| "encodeCondition VC = 7"
| "encodeCondition HI = 8"
| "encodeCondition LS = 9"
| "encodeCondition GE = 10"
| "encodeCondition LT = 11"
| "encodeCondition GT = 12"
| "encodeCondition LE = 13"
| "encodeCondition AL = 14"
| "encodeCondition kNone = 15"

definition isDefined :: "Cond \<Rightarrow> bool" where
  "isDefined C = (C \<noteq> kNone)"

text \<open>
  Modelled from the spec: the register numbers of \<^verbatim>\<open>RegARM32\<close> (IceRegistersARM32.h) are
  not under \<^verbatim>\<open>src/\<close>. They are the architecture's: the encoding comments of
  \<^verbatim>\<open>pop\<close> and \<^verbatim>\<open>push\<close> spell the stack pointer \<open>1101\<close>, and there are 16 general-purpose
  registers, the last one the program counter.
\<close>

definition Encoded_Reg_r0 :: IValueT where "Encoded_Reg_r0 = 0"
definition Encoded_Reg_sp :: IValueT where "Encoded_Reg_sp = 13"
definition Encoded_Reg_pc :: IValueT where "Encoded_Reg_pc = 15"
definition getNumGPRegs :: IValueT where "getNumGPRegs = 16"

definition encodeBool :: "bool \<Rightarrow> IValueT" where
  "encodeBool b = (if b then 1 else 0)"

datatype ShiftKind = kNoShift | LSL | LSR | ASR | ROR | RRX

fun encodeShift :: "ShiftKind \<Rightarrow> IValueT" where
  "encodeShift kNoShift = 0"
| "encodeShift LSL = 0"
| "encodeShift LSR = 1"
| "encodeShift ASR = 2"
| "encodeShift ROR = 3"
| "encodeShift RRX = 3"

definition mask_field :: "IValueT \<Rightarrow> nat \<Rightarrow> nat \<Rightarrow> IValueT" where
  \<comment> \<open>\<^verbatim>\<open>mask(Value, Shift, Bits)\<close>\<close>
  "mask_field Value Shift Bits = drop_bit Shift Value AND (push_bit Bits 1 - 1)"

definition isBitSet :: "IValueT \<Rightarrow> IValueT \<Rightarrow> bool" where
  "isBitSet Bit Value = (Value AND Bit = Bit)"

definition getGPRReg :: "nat \<Rightarrow> IValueT \<Rightarrow> IValueT" where
  "getGPRReg Shift Value = drop_bit Shift Value AND 0xF"

subsection \<open>The branch displacement codec\<close>

text \<open>
  Modelled from the spec: \<^verbatim>\<open>Utils::IsAligned\<close> and \<^verbatim>\<open>Utils::IsInt\<close> (IceUtils.h) are not
  under \<^verbatim>\<open>src/\<close>. An offset is encodable when it is 4-aligned and fits the field width:
  \<open>IsAligned X N\<close> holds when \<open>X\<close> is a multiple of the power of two \<open>N\<close>, and
  \<open>IsInt N v\<close> when \<open>v\<close> is a signed \<open>N\<close>-bit value.
\<close>

definition IsAligned :: "IOffsetT \<Rightarrow> IOffsetT \<Rightarrow> bool" where
  "IsAligned X N = (X AND (N - 1) = 0)"

definition IsInt :: "nat \<Rightarrow> IOffsetT \<Rightarrow> bool" where
  "IsInt N v = (- (2 ^ (N - 1)) \<le> sint v \<and> sint v < 2 ^ (N - 1))"

definition canEncodeBranchOffset :: "IOffsetT \<Rightarrow> bool" where
  "canEncodeBranchOffset Offset =
     (IsAligned Offset 4 \<and> IsInt kBranchOffsetBits (signed_drop_bit 2 Offset))"

definition encodeBranchOffset :: "IOffsetT \<Rightarrow> IValueT \<Rightarrow> error + IValueT" where
  "encodeBranchOffset Offset Inst =
     (let Offset1 = Offset - kPCReadOffset in
      andThen (check (canEncodeBranchOffset Offset1) ''IsGoodOffset'') (\<lambda>_.
        let Offset2 = signed_drop_bit 2 Offset1;
            Offset3 = Offset2 AND kBranchOffsetMask
        in Inr ((Inst AND NOT kBranchOffsetMask) OR Offset3)))"

definition decodeBranchOffset :: "IValueT \<Rightarrow> IOffsetT" where
  "decodeBranchOffset Inst =
     (let Offset = push_bit 8 (Inst AND kBranchOffsetMask)
      in signed_drop_bit 6 Offset + kPCReadOffset)"

subsection \<open>Operands\<close>

text \<open>
  Modelled from the spec: the operand classes (\<^verbatim>\<open>Variable\<close>, \<^verbatim>\<open>OperandARM32FlexImm\<close>,
  \<^verbatim>\<open>ConstantInteger32\<close>, \<^verbatim>\<open>OperandARM32FlexReg\<close>, \<^verbatim>\<open>OperandARM32ShAmtImm\<close>,
  \<^verbatim>\<open>OperandARM32Mem\<close>) are declared outside \<^verbatim>\<open>src/\<close>. An operand is the tagged union of the
  spec (register, rotated immediate, 32-bit constant, shifted register, shift amount,
  memory with an offset or with an index register), one constructor for each kind that the
  encoder downcasts to, with the fields that the encoder reads. The register tables of
  \<^verbatim>\<open>RegARM32\<close> are not under \<^verbatim>\<open>src/\<close> either, so a variable carries the encoded register
  numbers that \<^verbatim>\<open>getEncodedGPR\<close>, \<^verbatim>\<open>getEncodedSReg\<close> and \<^verbatim>\<open>getEncodedDReg\<close> return for it.
  \<open>BaseRegNum = None\<close> is \<^verbatim>\<open>Variable::NoRegister\<close>.
\<close>

record Variable =
  hasReg :: bool
  EncodedGPR :: IValueT
  EncodedSReg :: IValueT
  EncodedDReg :: IValueT
  StackOffset :: IOffsetT
  BaseRegNum :: "IValueT option"

text \<open>
  Modelled from the spec: \<^verbatim>\<open>enum OperandARM32Mem::AddrMode\<close> (IceInstARM32.h) is not under
  \<^verbatim>\<open>src/\<close>. The addressing mode of a memory operand is one of the three modes of the
  spec: offset, pre-indexed with writeback, post-indexed with writeback. The code uses the
  value of a mode as the bits P, U and W of the address word
  (\<^verbatim>\<open>Mode | (Reg << kRnShift)\<close>): offset is P and U, pre-indexed is P, U and W, and
  post-indexed is U alone, as the encodings written in the comments of \<^verbatim>\<open>ldr\<close>, \<^verbatim>\<open>push\<close>
  and \<^verbatim>\<open>pop\<close> need.
\<close>

datatype AddrMode = AddrMode_Offset | AddrMode_PreIndex | AddrMode_PostIndex

fun AddrMode_value :: "AddrMode \<Rightarrow> IValueT" where
  "AddrMode_value AddrMode_Offset = P OR U"
| "AddrMode_value AddrMode_PreIndex = P OR U OR W"
| "AddrMode_value AddrMode_PostIndex = U"

datatype Operand =
    OpVariable Variable
  | OperandARM32FlexImm IValueT IValueT
  | ConstantInteger32 "32 word"
  | OperandARM32FlexReg Variable ShiftKind Operand
  | OperandARM32ShAmtImm IValueT
  | OperandARM32Mem_Imm Variable "32 word" AddrMode
  | OperandARM32Mem_Reg Variable Variable ShiftKind "16 word" AddrMode
  | OtherOperand

datatype EncodedImmAddress =
    RotatedImm8Address
  | RotatedImm8Div4Address
  | Imm12Address
  | RotatedImm8Enc3Address
  | NoImmOffsetAddress

datatype EncodedOperand =
    CantEncode
  | EncodedAsRegister
  | EncodedAsRotatedImm8
  | EncodedAsImmRegOffset
  | EncodedAsShiftRotateImm5
  | EncodedAsShiftImm5
  | EncodedAsShiftedRegister
  | EncodedAsRegShiftReg
  | EncodedAsConstI32

datatype RegSetWanted = WantGPRegs | WantSRegs | WantDRegs

definition getEncodedGPRegNum :: "Variable \<Rightarrow> error + IValueT" where
  "getEncodedGPRegNum Var =
     andThen (check (hasReg Var) ''Var->hasReg()'') (\<lambda>_. Inr (EncodedGPR Var))"

definition getEncodedSRegNum :: "Variable \<Rightarrow> error + IValueT" where
  "getEncodedSRegNum Var =
     andThen (check (hasReg Var) ''Var->hasReg()'') (\<lambda>_. Inr (EncodedSReg Var))"

definition getEncodedDRegNum :: "Variable \<Rightarrow> error + IValueT" where
  "getEncodedDRegNum Var = Inr (EncodedDReg Var)"

definition encodeRotatedImm8 :: "IValueT \<Rightarrow> IValueT \<Rightarrow> error + IValueT" where
  "encodeRotatedImm8 RotateAmt Immed8 =
     andThen (check (RotateAmt < push_bit kRotateBits 1) ''RotateAmt < (1 << kRotateBits)'') (\<lambda>_.
     andThen (check (Immed8 < push_bit kImmed8Bits 1) ''Immed8 < (1 << kImmed8Bits)'') (\<lambda>_.
       Inr (push_bit kRotateShift RotateAmt OR push_bit kImmed8Shift Immed8)))"

definition encodeShiftRotateImm5 :: "IValueT \<Rightarrow> ShiftKind \<Rightarrow> IOffsetT \<Rightarrow> error + IValueT" where
  \<comment> \<open>\<^verbatim>\<open>imm5\<close> is signed, so the assertion compares signed values\<close>
  "encodeShiftRotateImm5 Rm Shift imm5 =
     andThen (check (sint imm5 < 2 ^ kShiftImmBits) ''imm5 < (1 << kShiftImmBits)'') (\<lambda>_.
       Inr (push_bit kShiftImmShift imm5 OR push_bit kShiftShift (encodeShift Shift) OR Rm))"

definition encodeShiftRotateReg :: "IValueT \<Rightarrow> ShiftKind \<Rightarrow> IValueT \<Rightarrow> IValueT" where
  "encodeShiftRotateReg Rm Shift Rs =
     push_bit kRsShift Rs OR push_bit kShiftShift (encodeShift Shift) OR B4
       OR push_bit kRmShift Rm"

fun encodeOperand :: "Operand \<Rightarrow> RegSetWanted \<Rightarrow> error + (EncodedOperand \<times> IValueT)" where
  "encodeOperand (OpVariable Var) WantedRegSet =
     (if hasReg Var then
        andThen (case WantedRegSet of
                   WantGPRegs \<Rightarrow> getEncodedGPRegNum Var
                 | WantSRegs \<Rightarrow> getEncodedSRegNum Var
                 | WantDRegs \<Rightarrow> getEncodedDRegNum Var)
          (\<lambda>Value. Inr (EncodedAsRegister, Value))
      else Inr (CantEncode, 0))"
| "encodeOperand (OperandARM32FlexImm Immed8 Rotate) WantedRegSet =
     (if \<not> (Rotate < push_bit kRotateBits 1 \<and> Immed8 < push_bit kImmed8Bits 1)
      then Inr (CantEncode, 0)
      else Inr (EncodedAsRotatedImm8,
                push_bit kRotateShift Rotate OR push_bit kImmed8Shift Immed8))"
| "encodeOperand (ConstantInteger32 Value) WantedRegSet = Inr (EncodedAsConstI32, Value)"
| "encodeOperand (OperandARM32FlexReg Reg ShiftOp Amt) WantedRegSet =
     andThen (encodeOperand (OpVariable Reg) WantGPRegs) (\<lambda>(RmKind, Rm).
       if RmKind \<noteq> EncodedAsRegister then Inr (CantEncode, 0)
       else (case Amt of
          OpVariable Var \<Rightarrow>
            andThen (encodeOperand (OpVariable Var) WantGPRegs) (\<lambda>(RsKind, Rs).
              if RsKind \<noteq> EncodedAsRegister then Inr (CantEncode, 0)
              else Inr (EncodedAsRegShiftReg, encodeShiftRotateReg Rm ShiftOp Rs))
        | OperandARM32ShAmtImm ShAmt \<Rightarrow>
            andThen (encodeShiftRotateImm5 Rm ShiftOp ShAmt)
              (\<lambda>Value. Inr (EncodedAsShiftedRegister, Value))
        | ConstantInteger32 Val \<Rightarrow>
            if sint Val < 0 then Inr (CantEncode, 0)
            else andThen (encodeShiftRotateImm5 Rm ShiftOp Val)
                   (\<lambda>Value. Inr (EncodedAsShiftedRegister, Value))
        | _ \<Rightarrow> Inr (CantEncode, 0)))"
| "encodeOperand (OperandARM32ShAmtImm Immed5) WantedRegSet =
     andThen (check (Immed5 < push_bit kShiftImmBits 1) ''Immed5 < (1 << kShiftImmBits)'') (\<lambda>_.
       Inr (EncodedAsShiftImm5, push_bit kShiftImmShift Immed5))"
| "encodeOperand _ WantedRegSet = Inr (CantEncode, 0)"

definition encodeImmRegOffset ::
  "IValueT \<Rightarrow> IOffsetT \<Rightarrow> AddrMode \<Rightarrow> IOffsetT \<Rightarrow> nat \<Rightarrow> error + IValueT" where
  "encodeImmRegOffset Reg Offset Mode MaxOffset OffsetShift =
     (let Value = AddrMode_value Mode OR push_bit kRnShift Reg;
          Offset1 = (if sint Offset < 0 then - Offset else Offset);
          Value1 = (if sint Offset < 0 then Value XOR U else Value)
      in andThen (check (sint Offset1 \<le> sint MaxOffset) ''Offset <= MaxOffset'') (\<lambda>_.
           Inr (Value1 OR signed_drop_bit OffsetShift Offset1)))"

definition encodeImmRegOffsetEnc3 :: "IValueT \<Rightarrow> IOffsetT \<Rightarrow> AddrMode \<Rightarrow> error + IValueT" where
  "encodeImmRegOffsetEnc3 Rn Imm8 Mode =
     (let Value = AddrMode_value Mode OR push_bit kRnShift Rn;
          Imm8a = (if sint Imm8 < 0 then - Imm8 else Imm8);
          Value1 = (if sint Imm8 < 0 then Value XOR U else Value)
      in andThen (check (sint Imm8a < 2 ^ 8) ''Imm8 < (1 << 8)'') (\<lambda>_.
           Inr (Value1 OR push_bit 22 1 OR push_bit 4 (Imm8a AND 0xf0) OR (Imm8a AND 0x0f))))"

fun encodeImmRegOffset_as ::
  "EncodedImmAddress \<Rightarrow> IValueT \<Rightarrow> IOffsetT \<Rightarrow> AddrMode \<Rightarrow> error + IValueT" where
  \<comment> \<open>the overload that takes the \<^verbatim>\<open>EncodedImmAddress\<close>\<close>
  "encodeImmRegOffset_as RotatedImm8Address Reg Offset Mode =
     encodeImmRegOffset Reg Offset Mode (push_bit 8 1 - 1) 0"
| "encodeImmRegOffset_as RotatedImm8Div4Address Reg Offset Mode =
     andThen (check (Offset AND 0x3 = 0) ''(Offset & 0x3) == 0'') (\<lambda>_.
       encodeImmRegOffset Reg Offset Mode (push_bit 8 1 - 1) 2)"
| "encodeImmRegOffset_as Imm12Address Reg Offset Mode =
     encodeImmRegOffset Reg Offset Mode (push_bit 12 1 - 1) 0"
| "encodeImmRegOffset_as RotatedImm8Enc3Address Reg Offset Mode =
     encodeImmRegOffsetEnc3 Reg Offset Mode"
| "encodeImmRegOffset_as NoImmOffsetAddress Reg Offset Mode =
     andThen (check (Offset = 0) ''Offset == 0'') (\<lambda>_.
     andThen (check (Mode = AddrMode_Offset) ''Mode == OperandARM32Mem::Offset'') (\<lambda>_.
       Inr (push_bit kRnShift Reg)))"

text \<open>
  Modelled from the spec: \<^verbatim>\<open>Utils::IsAbsoluteUint\<close> (IceUtils.h) is not under \<^verbatim>\<open>src/\<close>:
  the magnitude of the value fits \<open>N\<close> bits.
\<close>

definition IsAbsoluteUint :: "nat \<Rightarrow> IOffsetT \<Rightarrow> bool" where
  "IsAbsoluteUint N Value = (\<bar>sint Value\<bar> < 2 ^ N)"

definition encodeAddress ::
  "Operand \<Rightarrow> IValueT \<Rightarrow> EncodedImmAddress \<Rightarrow> error + (EncodedOperand \<times> IValueT)" where
  \<comment> \<open>the second argument is \<^verbatim>\<open>TInfo.FrameOrStackReg\<close>\<close>
  "encodeAddress Opnd FrameOrStackReg ImmEncoding =
     (case Opnd of
        OpVariable Var \<Rightarrow>
          if hasReg Var then Inr (CantEncode, 0)
          else if \<not> IsAbsoluteUint 12 (StackOffset Var) then Inr (CantEncode, 0)
          else
            let BaseReg = (case BaseRegNum Var of None \<Rightarrow> FrameOrStackReg | Some R \<Rightarrow> R)
            in andThen (encodeImmRegOffset_as ImmEncoding BaseReg (StackOffset Var) AddrMode_Offset)
                 (\<lambda>Value. Inr (EncodedAsImmRegOffset, Value))
      | OperandARM32Mem_Imm Var Offset Mode \<Rightarrow>
          if \<not> hasReg Var then Inr (CantEncode, 0)
          else
            andThen (getEncodedGPRegNum Var) (\<lambda>Rn.
            andThen (encodeImmRegOffset_as ImmEncoding Rn Offset Mode)
              (\<lambda>Value. Inr (EncodedAsImmRegOffset, Value)))
      | OperandARM32Mem_Reg Var Index ShiftOp ShiftAmt Mode \<Rightarrow>
          if \<not> hasReg Var then Inr (CantEncode, 0)
          else
            andThen (getEncodedGPRegNum Var) (\<lambda>Rn.
            andThen (getEncodedGPRegNum Index) (\<lambda>Rm.
            andThen (encodeShiftRotateImm5 Rm ShiftOp (ucast ShiftAmt)) (\<lambda>Shifted.
              Inr (EncodedAsShiftRotateImm5,
                   push_bit kRnShift Rn OR AddrMode_value Mode OR Shifted))))
      | _ \<Rightarrow> Inr (CantEncode, 0))"

definition encodeRegister :: "Operand \<Rightarrow> RegSetWanted \<Rightarrow> string \<Rightarrow> string \<Rightarrow> error + IValueT" where
  "encodeRegister OpReg WantedRegSet RegName InstName =
     andThen (encodeOperand OpReg WantedRegSet) (\<lambda>(Kind, Reg).
       if Kind \<noteq> EncodedAsRegister
       then Inl (FatalError (InstName @ '': Can't find register '' @ RegName))
       else Inr Reg)"

definition encodeGPRegister :: "Operand \<Rightarrow> string \<Rightarrow> string \<Rightarrow> error + IValueT" where
  "encodeGPRegister OpReg RegName InstName = encodeRegister OpReg WantGPRegs RegName InstName"

subsection \<open>Legality checks\<close>

text \<open>
  \<^verbatim>\<open>BuildDefs::minimal()\<close> (IceBuildDefs.h) is a constant of the build that is not under
  \<^verbatim>\<open>src/\<close>: it is the first argument of every check, and of every emitter that checks.
\<close>

definition verifyPOrNotW :: "bool \<Rightarrow> IValueT \<Rightarrow> string \<Rightarrow> error + unit" where
  "verifyPOrNotW minimal Address InstName =
     (if minimal then Inr ()
      else if \<not> isBitSet P Address \<and> isBitSet W Address
      then Inl (FatalError (InstName @ '': P=0 when W=1 not allowed''))
      else Inr ())"

definition verifyRegsNotEq ::
  "bool \<Rightarrow> IValueT \<Rightarrow> string \<Rightarrow> IValueT \<Rightarrow> string \<Rightarrow> string \<Rightarrow> error + unit" where
  "verifyRegsNotEq minimal Reg1 Reg1Name Reg2 Reg2Name InstName =
     (if minimal then Inr ()
      else if Reg1 = Reg2
      then Inl (FatalError (InstName @ '': '' @ Reg1Name @ ''='' @ Reg2Name @ '' not allowed''))
      else Inr ())"

definition verifyRegNotPc :: "bool \<Rightarrow> IValueT \<Rightarrow> string \<Rightarrow> string \<Rightarrow> error + unit" where
  "verifyRegNotPc minimal Reg RegName InstName =
     verifyRegsNotEq minimal Reg RegName Encoded_Reg_pc ''pc'' InstName"

definition verifyRegNotPcWhenSetFlags :: "bool \<Rightarrow> IValueT \<Rightarrow> bool \<Rightarrow> string \<Rightarrow> error + unit" where
  \<comment> \<open>\<^verbatim>\<open>RegARM32::getRegName(Reg)\<close> is only reached with \<^verbatim>\<open>Reg\<close> the program counter,
      whose name is \<^verbatim>\<open>pc\<close>\<close>
  "verifyRegNotPcWhenSetFlags minimal Reg SetFlags InstName =
     (if minimal then Inr ()
      else if SetFlags \<and> Reg = Encoded_Reg_pc
      then Inl (FatalError (InstName @ '': '' @ ''pc'' @ ''=pc not allowed when CC=1''))
      else Inr ())"

subsection \<open>The buffer\<close>

text \<open>
  Modelled from the spec: \<^verbatim>\<open>AssemblerBuffer\<close> and \<^verbatim>\<open>emitInst\<close> (IceAssembler.h,
  IceAssemblerARM32.h) are not under \<^verbatim>\<open>src/\<close>. The buffer is an append-only sequence with
  \<^verbatim>\<open>append(word)\<close>, \<^verbatim>\<open>load_at(position)\<close>, \<^verbatim>\<open>store_at(position, word)\<close> and
  \<^verbatim>\<open>current_position()\<close>. It holds instruction words here, so that its length in bytes is
  a multiple of the instruction width, and a position is a byte offset: a load or a store
  at a position that is not the offset of a word of the buffer fails.
\<close>

type_synonym AssemblerBuffer = "IValueT list"

definition buffer_size :: "AssemblerBuffer \<Rightarrow> int" where
  "buffer_size Buffer = 4 * int (length Buffer)"

definition valid_position :: "AssemblerBuffer \<Rightarrow> int \<Rightarrow> bool" where
  "valid_position Buffer p = (0 \<le> p \<and> p mod 4 = 0 \<and> p < buffer_size Buffer)"

definition buffer_load :: "AssemblerBuffer \<Rightarrow> IOffsetT \<Rightarrow> error + IValueT" where
  "buffer_load Buffer Position =
     andThen (check (valid_position Buffer (sint Position)) ''load: position in buffer'') (\<lambda>_.
       Inr (Buffer ! nat (sint Position div 4)))"

definition buffer_store :: "AssemblerBuffer \<Rightarrow> IOffsetT \<Rightarrow> IValueT \<Rightarrow> error + AssemblerBuffer" where
  "buffer_store Buffer Position Value =
     andThen (check (valid_position Buffer (sint Position)) ''store: position in buffer'') (\<lambda>_.
       Inr (Buffer[nat (sint Position div 4) := Value]))"

definition emitInst :: "IValueT \<Rightarrow> AssemblerBuffer \<Rightarrow> error + AssemblerBuffer" where
  "emitInst Value Buffer = Inr (Buffer @ [Value])"

subsection \<open>Data-processing instructions\<close>

text \<open>
  Modelled from the spec: \<^verbatim>\<open>OperandARM32FlexImm::canHoldImm\<close> (IceInstARM32.cpp) is not
  under \<^verbatim>\<open>src/\<close>. It finds a pair (rotate, imm8) with \<open>rotate < 16\<close>, \<open>imm8 < 256\<close> and
  \<open>rotate_right(imm8, rotate * 2) = value\<close>, or reports that there is none. The pair found
  is the one of the least rotation: the word \<open>0xE3A00005\<close> for the constant 5 has
  rotation 0.
\<close>

definition canHoldImm :: "IValueT \<Rightarrow> (IValueT \<times> IValueT) option" where
  "canHoldImm Immediate =
     (case List.find (\<lambda>Rot. word_rotl (2 * Rot) Immediate \<le> 0xFF) [0..<16] of
        None \<Rightarrow> None
      | Some Rot \<Rightarrow> Some (of_nat Rot, word_rotl (2 * Rot) Immediate))"

datatype EmitChecks = NoChecks | RdIsPcAndSetFlags

definition emitType01 ::
  "bool \<Rightarrow> Cond \<Rightarrow> IValueT \<Rightarrow> IValueT \<Rightarrow> bool \<Rightarrow> IValueT \<Rightarrow> IValueT \<Rightarrow> IValueT \<Rightarrow> EmitChecks
     \<Rightarrow> string \<Rightarrow> AssemblerBuffer \<Rightarrow> error + AssemblerBuffer" where
  \<comment> \<open>\<^verbatim>\<open>emitType01(Cond, InstType, Opcode, SetFlags, Rn, Rd, Imm12, RuleChecks, InstName)\<close>\<close>
  "emitType01 minimal Cond InstType Opcode SetFlags Rn Rd Imm12 RuleChecks InstName Buffer =
     andThen (case RuleChecks of
                NoChecks \<Rightarrow> Inr ()
              | RdIsPcAndSetFlags \<Rightarrow> verifyRegNotPcWhenSetFlags minimal Rd SetFlags InstName) (\<lambda>_.
     andThen (check (Rd < getNumGPRegs) ''Rd < RegARM32::getNumGPRegs()'') (\<lambda>_.
     andThen (check (isDefined Cond) ''CondARM32::isDefined(Cond)'') (\<lambda>_.
       let Encoding = push_bit kConditionShift (encodeCondition Cond)
                        OR push_bit kTypeShift InstType OR push_bit kOpcodeShift Opcode
                        OR push_bit kSShift (encodeBool SetFlags)
                        OR push_bit kRnShift Rn OR push_bit kRdShift Rd OR Imm12
       in emitInst Encoding Buffer)))"

definition emitType01_Src ::
  "bool \<Rightarrow> Cond \<Rightarrow> IValueT \<Rightarrow> IValueT \<Rightarrow> IValueT \<Rightarrow> Operand \<Rightarrow> bool \<Rightarrow> EmitChecks
     \<Rightarrow> string \<Rightarrow> AssemblerBuffer \<Rightarrow> error + AssemblerBuffer" where
  \<comment> \<open>\<^verbatim>\<open>emitType01(Cond, Opcode, Rd, Rn, OpSrc1, SetFlags, RuleChecks, InstName)\<close> with
      \<^verbatim>\<open>Rd\<close> and \<^verbatim>\<open>Rn\<close> register numbers\<close>
  "emitType01_Src minimal Cond Opcode Rd Rn OpSrc1 SetFlags RuleChecks InstName Buffer =
     andThen (encodeOperand OpSrc1 WantGPRegs) (\<lambda>(Kind, Src1Value).
       case Kind of
         EncodedAsRegister \<Rightarrow>
           andThen (encodeShiftRotateImm5 Src1Value kNoShift 0) (\<lambda>Src1Value1.
             emitType01 minimal Cond kInstTypeDataRegister Opcode SetFlags Rn Rd Src1Value1
               RuleChecks InstName Buffer)
       | EncodedAsShiftedRegister \<Rightarrow>
           emitType01 minimal Cond kInstTypeDataRegister Opcode SetFlags Rn Rd Src1Value
             RuleChecks InstName Buffer
       | EncodedAsConstI32 \<Rightarrow>
           (case canHoldImm Src1Value of
              None \<Rightarrow> Inl (FatalError (InstName @ '': Immediate rotated constant not valid''))
            | Some (RotateAmt, Imm8) \<Rightarrow>
                andThen (encodeRotatedImm8 RotateAmt Imm8) (\<lambda>Src1Value1.
                  emitType01 minimal Cond kInstTypeDataImmediate Opcode SetFlags Rn Rd Src1Value1
                    RuleChecks InstName Buffer))
       | EncodedAsRotatedImm8 \<Rightarrow>
           emitType01 minimal Cond kInstTypeDataImmediate Opcode SetFlags Rn Rd Src1Value
             RuleChecks InstName Buffer
       | EncodedAsRegShiftReg \<Rightarrow>
           emitType01 minimal Cond kInstTypeDataRegShift Opcode SetFlags Rn Rd Src1Value
             RuleChecks InstName Buffer
       | _ \<Rightarrow> Inl (FatalError (InstName @ '': Can't encode instruction'')))"

definition emitType01_Ops ::
  "bool \<Rightarrow> Cond \<Rightarrow> IValueT \<Rightarrow> Operand \<Rightarrow> Operand \<Rightarrow> Operand \<Rightarrow> bool \<Rightarrow> EmitChecks
     \<Rightarrow> string \<Rightarrow> AssemblerBuffer \<Rightarrow> error + AssemblerBuffer" where
  \<comment> \<open>\<^verbatim>\<open>emitType01(Cond, Opcode, OpRd, OpRn, OpSrc1, SetFlags, RuleChecks, InstName)\<close>\<close>
  "emitType01_Ops minimal Cond Opcode OpRd OpRn OpSrc1 SetFlags RuleChecks InstName Buffer =
     andThen (encodeGPRegister OpRd ''Rd'' InstName) (\<lambda>Rd.
     andThen (encodeGPRegister OpRn ''Rn'' InstName) (\<lambda>Rn.
       emitType01_Src minimal Cond Opcode Rd Rn OpSrc1 SetFlags RuleChecks InstName Buffer))"

definition adc :: "bool \<Rightarrow> Operand \<Rightarrow> Operand \<Rightarrow> Operand \<Rightarrow> bool \<Rightarrow> Cond
     \<Rightarrow> AssemblerBuffer \<Rightarrow> error + AssemblerBuffer" where
  "adc minimal OpRd OpRn OpSrc1 SetFlags Cond =
     emitType01_Ops minimal Cond (B2 OR B0) OpRd OpRn OpSrc1 SetFlags RdIsPcAndSetFlags ''adc''"

definition add :: "bool \<Rightarrow> Operand \<Rightarrow> Operand \<Rightarrow> Operand \<Rightarrow> bool \<Rightarrow> Cond
     \<Rightarrow> AssemblerBuffer \<Rightarrow> error + AssemblerBuffer" where
  "add minimal OpRd OpRn OpSrc1 SetFlags Cond =
     emitType01_Ops minimal Cond B2 OpRd OpRn OpSrc1 SetFlags RdIsPcAndSetFlags ''add''"

definition and_inst :: "bool \<Rightarrow> Operand \<Rightarrow> Operand \<Rightarrow> Operand \<Rightarrow> bool \<Rightarrow> Cond
     \<Rightarrow> AssemblerBuffer \<Rightarrow> error + AssemblerBuffer" where
  "and_inst minimal OpRd OpRn OpSrc1 SetFlags Cond =
     emitType01_Ops minimal Cond 0 OpRd OpRn OpSrc1 SetFlags RdIsPcAndSetFlags ''and''"

definition bic :: "bool \<Rightarrow> Operand \<Rightarrow> Operand \<Rightarrow> Operand \<Rightarrow> bool \<Rightarrow> Cond
     \<Rightarrow> AssemblerBuffer \<Rightarrow> error + AssemblerBuffer" where
  "bic minimal OpRd OpRn OpSrc1 SetFlags Cond =
     emitType01_Ops minimal Cond (B3 OR B2 OR B1) OpRd OpRn OpSrc1 SetFlags RdIsPcAndSetFlags ''bic''"

definition eor :: "bool \<Rightarrow> Operand \<Rightarrow> Operand \<Rightarrow> Operand \<Rightarrow> bool \<Rightarrow> Cond
     \<Rightarrow> AssemblerBuffer \<Rightarrow> error + AssemblerBuffer" where
  "eor minimal OpRd OpRn OpSrc1 SetFlags Cond =
     emitType01_Ops minimal Cond B0 OpRd OpRn OpSrc1 SetFlags RdIsPcAndSetFlags ''eor''"

definition orr :: "bool \<Rightarrow> Operand \<Rightarrow> Operand \<Rightarrow> Operand \<Rightarrow> bool \<Rightarrow> Cond
     \<Rightarrow> AssemblerBuffer \<Rightarrow> error + AssemblerBuffer" where
  "orr minimal OpRd OpRn OpSrc1 SetFlags Cond =
     emitType01_Ops minimal Cond (B3 OR B2) OpRd OpRn OpSrc1 SetFlags RdIsPcAndSetFlags ''orr''"

definition rsb :: "bool \<Rightarrow> Operand \<Rightarrow> Operand \<Rightarrow> Operand \<Rightarrow> bool \<Rightarrow> Cond
     \<Rightarrow> AssemblerBuffer \<Rightarrow> error + AssemblerBuffer" where
  "rsb minimal OpRd OpRn OpSrc1 SetFlags Cond =
     emitType01_Ops minimal Cond (B1 OR B0) OpRd OpRn OpSrc1 SetFlags RdIsPcAndSetFlags ''rsb''"

definition rsc :: "bool \<Rightarrow> Operand \<Rightarrow> Operand \<Rightarrow> Operand \<Rightarrow> bool \<Rightarrow> Cond
     \<Rightarrow> AssemblerBuffer \<Rightarrow> error + AssemblerBuffer" where
  "rsc minimal OpRd OpRn OpSrc1 SetFlags Cond =
     emitType01_Ops minimal Cond (B2 OR B1 OR B0) OpRd OpRn OpSrc1 SetFlags RdIsPcAndSetFlags ''rsc''"

definition sbc :: "bool \<Rightarrow> Operand \<Rightarrow> Operand \<Rightarrow> Operand \<Rightarrow> bool \<Rightarrow> Cond
     \<Rightarrow> AssemblerBuffer \<Rightarrow> error + AssemblerBuffer" where
  "sbc minimal OpRd OpRn OpSrc1 SetFlags Cond =
     emitType01_Ops minimal Cond (B2 OR B1) OpRd OpRn OpSrc1 SetFlags RdIsPcAndSetFlags ''sbc''"

definition sub :: "bool \<Rightarrow> Operand \<Rightarrow> Operand \<Rightarrow> Operand \<Rightarrow> bool \<Rightarrow> Cond
     \<Rightarrow> AssemblerBuffer \<Rightarrow> error + AssemblerBuffer" where
  "sub minimal OpRd OpRn OpSrc1 SetFlags Cond =
     emitType01_Ops minimal Cond B1 OpRd OpRn OpSrc1 SetFlags RdIsPcAndSetFlags ''sub''"

definition mov :: "bool \<Rightarrow> Operand \<Rightarrow> Operand \<Rightarrow> Cond \<Rightarrow> AssemblerBuffer \<Rightarrow> error + AssemblerBuffer" where
  "mov minimal OpRd OpSrc Cond Buffer =
     andThen (encodeGPRegister OpRd ''Rd'' ''mov'') (\<lambda>Rd.
       emitType01_Src minimal Cond (B3 OR B2 OR B0) Rd 0 OpSrc False RdIsPcAndSetFlags
         ''mov'' Buffer)"

subsection \<open>Loads and stores\<close>


definition emitMemOp ::
  "Cond \<Rightarrow> IValueT \<Rightarrow> bool \<Rightarrow> bool \<Rightarrow> IValueT \<Rightarrow> IValueT \<Rightarrow> AssemblerBuffer
     \<Rightarrow> error + AssemblerBuffer" where
  \<comment> \<open>\<^verbatim>\<open>emitMemOp(Cond, InstType, IsLoad, IsByte, Rt, Address)\<close>\<close>
  "emitMemOp Cond InstType IsLoad IsByte Rt Address Buffer =
     andThen (check (Rt < getNumGPRegs) ''Rt < RegARM32::getNumGPRegs()'') (\<lambda>_.
     andThen (check (isDefined Cond) ''CondARM32::isDefined(Cond)'') (\<lambda>_.
       let Encoding = push_bit kConditionShift (encodeCondition Cond)
                        OR push_bit kTypeShift InstType OR (if IsLoad then L else 0)
                        OR (if IsByte then B else 0) OR push_bit kRdShift Rt OR Address
       in emitInst Encoding Buffer))"

definition emitMemOp_Address ::
  "bool \<Rightarrow> Cond \<Rightarrow> bool \<Rightarrow> bool \<Rightarrow> IValueT \<Rightarrow> Operand \<Rightarrow> IValueT \<Rightarrow> string \<Rightarrow> AssemblerBuffer
     \<Rightarrow> error + AssemblerBuffer" where
  \<comment> \<open>\<^verbatim>\<open>emitMemOp(Cond, IsLoad, IsByte, Rt, OpAddress, TInfo, InstName)\<close>, with
      \<^verbatim>\<open>TInfo.FrameOrStackReg\<close> for \<^verbatim>\<open>TInfo\<close>\<close>
  "emitMemOp_Address minimal Cond IsLoad IsByte Rt OpAddress FrameOrStackReg InstName Buffer =
     andThen (encodeAddress OpAddress FrameOrStackReg Imm12Address) (\<lambda>(Kind, Address).
       case Kind of
         EncodedAsImmRegOffset \<Rightarrow>
           (let Rn = getGPRReg kRnShift Address in
            andThen (verifyRegNotPc minimal Rn ''Rn'' InstName) (\<lambda>_.
            andThen (verifyPOrNotW minimal Address InstName) (\<lambda>_.
              if \<not> IsByte \<and> Rn = Encoded_Reg_sp \<and> \<not> isBitSet P Address \<and> isBitSet U Address
                   \<and> \<not> isBitSet W Address \<and> mask_field Address kImm12Shift kImmed12Bits = 0x8
              then Inl (FatalError (InstName @ '': Use push/pop instead''))
              else emitMemOp Cond kInstTypeMemImmediate IsLoad IsByte Rt Address Buffer)))
       | EncodedAsShiftRotateImm5 \<Rightarrow>
           (let Rn = getGPRReg kRnShift Address;
                Rm = getGPRReg kRmShift Address in
            andThen (verifyPOrNotW minimal Address InstName) (\<lambda>_.
            andThen (verifyRegNotPc minimal Rm ''Rm'' InstName) (\<lambda>_.
            andThen (if IsByte then verifyRegNotPc minimal Rt ''Rt'' InstName else Inr ()) (\<lambda>_.
            andThen (if isBitSet W Address
                     then andThen (verifyRegNotPc minimal Rn ''Rn'' InstName) (\<lambda>_.
                            verifyRegsNotEq minimal Rn ''Rn'' Rt ''Rt'' InstName)
                     else Inr ()) (\<lambda>_.
              emitMemOp Cond kInstTypeRegisterShift IsLoad IsByte Rt Address Buffer)))))
       | _ \<Rightarrow> Inl (FatalError (InstName @ '': Memory address not understood'')))"

definition pop :: "bool \<Rightarrow> Variable \<Rightarrow> Cond \<Rightarrow> AssemblerBuffer \<Rightarrow> error + AssemblerBuffer" where
  "pop minimal OpRt Cond Buffer =
     andThen (encodeGPRegister (OpVariable OpRt) ''Rt'' ''pop'') (\<lambda>Rt.
     andThen (verifyRegsNotEq minimal Rt ''Rt'' Encoded_Reg_sp ''sp'' ''pop'') (\<lambda>_.
     andThen (encodeImmRegOffset Encoded_Reg_sp kWordSize AddrMode_PostIndex (push_bit 8 1 - 1) 0)
       (\<lambda>Address.
         emitMemOp Cond kInstTypeMemImmediate True False Rt Address Buffer)))"

definition push :: "bool \<Rightarrow> Operand \<Rightarrow> Cond \<Rightarrow> AssemblerBuffer \<Rightarrow> error + AssemblerBuffer" where
  "push minimal OpRt Cond Buffer =
     andThen (encodeGPRegister OpRt ''Rt'' ''push'') (\<lambda>Rt.
     andThen (verifyRegsNotEq minimal Rt ''Rt'' Encoded_Reg_sp ''sp'' ''push'') (\<lambda>_.
     andThen (encodeImmRegOffset Encoded_Reg_sp (- kWordSize) AddrMode_PreIndex (push_bit 8 1 - 1) 0)
       (\<lambda>Address.
         emitMemOp Cond kInstTypeMemImmediate False False Rt Address Buffer)))"

subsection \<open>Labels and branches\<close>

text \<open>
  Modelled from the spec: \<^verbatim>\<open>class Label\<close> (IceAssembler.h) is not under \<^verbatim>\<open>src/\<close>. A label
  is unbound with an optional chain head, or bound to a position. \<^verbatim>\<open>bind\<close> and
  \<^verbatim>\<open>emitBranch\<close> read and write the label as one number (\<^verbatim>\<open>getEncodedPosition\<close>,
  \<^verbatim>\<open>setPosition\<close>) that also travels through the displacement field of a branch, so the
  three states are kept in that number: zero is unbound with no reference (the end of a
  chain), a positive number is unbound with the chain head at that number minus the word
  size, and a negative number is bound.
\<close>

record Label =
  Position :: int

definition getEncodedPosition :: "Label \<Rightarrow> int" where
  "getEncodedPosition Lbl = Position Lbl"

definition setPosition :: "Label \<Rightarrow> int \<Rightarrow> Label" where
  "setPosition Lbl NewValue = Lbl\<lparr>Position := NewValue\<rparr>"

definition isBound :: "Label \<Rightarrow> bool" where
  "isBound Lbl = (Position Lbl < 0)"

definition isLinked :: "Label \<Rightarrow> bool" where
  "isLinked Lbl = (Position Lbl > 0)"

definition getPosition :: "Label \<Rightarrow> error + int" where
  "getPosition Lbl =
     andThen (check (isBound Lbl) ''isBound()'') (\<lambda>_. Inr (- Position Lbl - 4))"

definition getLinkPosition :: "Label \<Rightarrow> error + int" where
  "getLinkPosition Lbl =
     andThen (check (isLinked Lbl) ''isLinked()'') (\<lambda>_. Inr (Position Lbl - 4))"

definition bindTo :: "Label \<Rightarrow> int \<Rightarrow> error + Label" where
  "bindTo Lbl position =
     andThen (check (\<not> isBound Lbl) ''!isBound()'') (\<lambda>_.
       let Lbl1 = Lbl\<lparr>Position := - position - 4\<rparr> in
       andThen (check (isBound Lbl1) ''isBound()'') (\<lambda>_. Inr Lbl1))"

definition linkTo :: "Label \<Rightarrow> int \<Rightarrow> error + Label" where
  "linkTo Lbl position =
     andThen (check (\<not> isBound Lbl) ''!isBound()'') (\<lambda>_.
       let Lbl1 = Lbl\<lparr>Position := position + 4\<rparr> in
       andThen (check (isLinked Lbl1) ''isLinked()'') (\<lambda>_. Inr Lbl1))"

definition emitType05 :: "Cond \<Rightarrow> IOffsetT \<Rightarrow> bool \<Rightarrow> AssemblerBuffer \<Rightarrow> error + AssemblerBuffer" where
  "emitType05 Cond Offset Link Buffer =
     andThen (check (isDefined Cond) ''CondARM32::isDefined(Cond)'') (\<lambda>_.
       let Encoding = push_bit kConditionShift (encodeCondition Cond) OR push_bit kTypeShift 5
                        OR push_bit kLinkShift (if Link then 1 else 0)
       in andThen (encodeBranchOffset Offset Encoding) (\<lambda>Encoding1.
            emitInst Encoding1 Buffer))"

definition emitBranch ::
  "Label \<Rightarrow> Cond \<Rightarrow> bool \<Rightarrow> AssemblerBuffer \<Rightarrow> error + (Label \<times> AssemblerBuffer)" where
  "emitBranch Lbl Cond Link Buffer =
     (if isBound Lbl then
        andThen (getPosition Lbl) (\<lambda>Target.
          let Dest = word_of_int (Target - buffer_size Buffer) in
          andThen (emitType05 Cond Dest Link Buffer) (\<lambda>Buffer1. Inr (Lbl, Buffer1)))
      else
        let Position = (word_of_int (buffer_size Buffer) :: IOffsetT) in
        andThen (emitType05 Cond (word_of_int (getEncodedPosition Lbl)) Link Buffer) (\<lambda>Buffer1.
        andThen (linkTo Lbl (sint Position)) (\<lambda>Lbl1. Inr (Lbl1, Buffer1))))"

definition b :: "Label \<Rightarrow> Cond \<Rightarrow> AssemblerBuffer \<Rightarrow> error + (Label \<times> AssemblerBuffer)" where
  "b Lbl Cond Buffer = emitBranch Lbl Cond False Buffer"

text \<open>
  The loop of \<^verbatim>\<open>bind\<close> follows the links stored in the buffer, and nothing in the code
  bounds it: the result is \<open>None\<close> when it does not end.
\<close>

partial_function (option) bind_loop ::
  "IOffsetT \<Rightarrow> Label \<Rightarrow> AssemblerBuffer \<Rightarrow> (error + (Label \<times> AssemblerBuffer)) option" where
  "bind_loop BoundPc Lbl Buffer =
     (if isLinked Lbl then
        (case getLinkPosition Lbl of
           Inl e \<Rightarrow> Some (Inl e)
         | Inr LinkPosition \<Rightarrow>
            (let Position = (word_of_int LinkPosition :: IOffsetT);
                 Dest = BoundPc - Position
             in case buffer_load Buffer Position of
                  Inl e \<Rightarrow> Some (Inl e)
                | Inr Inst \<Rightarrow>
                   (case encodeBranchOffset Dest Inst of
                      Inl e \<Rightarrow> Some (Inl e)
                    | Inr Patched \<Rightarrow>
                       (case buffer_store Buffer Position Patched of
                          Inl e \<Rightarrow> Some (Inl e)
                        | Inr Buffer1 \<Rightarrow>
                            bind_loop BoundPc
                              (setPosition Lbl (sint (decodeBranchOffset Inst))) Buffer1))))
      else Some (Inr (Lbl, Buffer)))"

definition bind :: "Label \<Rightarrow> AssemblerBuffer \<Rightarrow> (error + (Label \<times> AssemblerBuffer)) option" where
  "bind Lbl Buffer =
     (let BoundPc = (word_of_int (buffer_size Buffer) :: IOffsetT) in
      if isBound Lbl then Some (Inl (AssertFailed ''!L->isBound()''))
      else (case bind_loop BoundPc Lbl Buffer of
              None \<Rightarrow> None
            | Some (Inl e) \<Rightarrow> Some (Inl e)
            | Some (Inr (Lbl1, Buffer1)) \<Rightarrow>
                Some (andThen (bindTo Lbl1 (sint BoundPc)) (\<lambda>Lbl2. Inr (Lbl2, Buffer1)))))"

declare bind_loop.simps [code]

subsection \<open>Forward references\<close>

text \<open>
  \<open>forward_refs Lbl Buffer Sites\<close>: the label \<open>Lbl\<close> has not been bound, and \<open>Sites\<close> are
  the positions, the latest first, of the branches to it that \<^verbatim>\<open>emitBranch\<close> has emitted
  into \<open>Buffer\<close>. Between these branches other words may have been appended, and words at
  other positions may have been patched (the branches of other labels).
\<close>

inductive forward_refs :: "Label \<Rightarrow> AssemblerBuffer \<Rightarrow> int list \<Rightarrow> bool" where
  unused: "Position Lbl = 0 \<Longrightarrow> forward_refs Lbl Buffer []"
| branch: "forward_refs Lbl Buffer Sites \<Longrightarrow> \<not> isBound Lbl
    \<Longrightarrow> emitBranch Lbl Cond Link Buffer = Inr (Lbl1, Buffer1)
    \<Longrightarrow> forward_refs Lbl1 Buffer1 (buffer_size Buffer # Sites)"
| other: "forward_refs Lbl Buffer Sites \<Longrightarrow> emitInst Value Buffer = Inr Buffer1
    \<Longrightarrow> forward_refs Lbl Buffer1 Sites"
| patch: "forward_refs Lbl Buffer Sites \<Longrightarrow> sint Pos \<notin> set Sites
    \<Longrightarrow> buffer_store Buffer Pos Value = Inr Buffer1
    \<Longrightarrow> forward_refs Lbl Buffer1 Sites"

text \<open>
  The list threaded through the buffer: \<open>link_chain Buffer p Sites\<close> holds when the label
  position \<open>p\<close> leads through exactly the sites \<open>Sites\<close>, each branch word holding the
  link to the next site, down to the end of the chain.
\<close>

fun link_chain :: "AssemblerBuffer \<Rightarrow> int \<Rightarrow> int list \<Rightarrow> bool" where
  "link_chain Buffer p [] = (p = 0)"
| "link_chain Buffer p (S # Sites) =
     (p = S + 4 \<and> valid_position Buffer S
      \<and> (let next = sint (decodeBranchOffset (Buffer ! nat (S div 4)))
         in next \<le> S \<and> link_chain Buffer next Sites))"

section \<open>Properties\<close>

subsection \<open>Words\<close>

lemma mask_merge: "((A AND NOT m) OR (X AND m)) AND m = X AND (m :: 32 word)"
  by (rule bit_eqI) (auto simp: bit_simps)

lemma push_bit_8_mask24: "push_bit 8 (X AND (0x00ffffff :: 32 word)) = push_bit 8 X"
proof -
  have m: "(0x00ffffff :: 32 word) = mask 24"
    by (simp add: mask_eq_exp_minus_1)
  have "push_bit 8 (take_bit 24 X) = push_bit 8 X"
    by (rule bit_eqI) (auto simp: bit_simps)
  then show ?thesis
    unfolding m by (simp only: take_bit_eq_mask)
qed

lemma take_bit_2_sint:
  assumes "take_bit 2 (x :: 32 word) = 0"
  shows "sint x mod 4 = 0"
proof -
  have "take_bit 2 (uint x) = 0"
    using assms by (metis unsigned_take_bit_eq unsigned_0)
  then have "take_bit 2 (take_bit 32 (sint x)) = 0"
    by (simp add: uint_sint)
  then have "take_bit 2 (sint x) = 0"
    by simp
  then show ?thesis
    by (simp add: take_bit_eq_mod)
qed

lemma and_3_take_bit: "(x :: 32 word) AND 3 = take_bit 2 x"
proof -
  have m: "(3 :: 32 word) = mask 2"
    by (simp add: mask_eq_exp_minus_1)
  show ?thesis
    unfolding m by (simp only: take_bit_eq_mask)
qed

lemma sint_push_bit_8:
  assumes "- (2 ^ 23) \<le> sint (X :: 32 word)" and "sint X < 2 ^ 23"
  shows "sint (push_bit 8 X) = sint X * 256"
proof -
  have "sint (push_bit 8 X) = signed_take_bit 31 (sint X * 256)"
    by (simp add: push_bit_eq_mult sint_word_mult)
  also have "\<dots> = sint X * 256"
    using assms by (intro signed_take_bit_int_eq_self) auto
  finally show ?thesis .
qed

lemma field_roundtrip:
  assumes al: "take_bit 2 (x :: 32 word) = 0"
    and lo: "- (2 ^ 23) \<le> sint (signed_drop_bit 2 x)"
    and hi: "sint (signed_drop_bit 2 x) < 2 ^ 23"
  shows "signed_drop_bit 6 (push_bit 8 (signed_drop_bit 2 x)) = x"
proof -
  have "sint (signed_drop_bit 6 (push_bit 8 (signed_drop_bit 2 x)))
      = drop_bit 6 (sint (signed_drop_bit 2 x) * 256)"
    by (simp only: sint_signed_drop_bit_eq sint_push_bit_8 [OF lo hi])
  also have "\<dots> = (sint x div 4) * 4"
    by (simp add: sint_signed_drop_bit_eq drop_bit_eq_div)
  also have "\<dots> = sint x"
    using take_bit_2_sint [OF al] by presburger
  finally show ?thesis
    by (rule signed_word_eqI)
qed

lemma decode_encoded_word:
  assumes "canEncodeBranchOffset x"
  shows "decodeBranchOffset ((Inst AND NOT kBranchOffsetMask)
           OR (signed_drop_bit 2 x AND kBranchOffsetMask)) = x + kPCReadOffset"
proof -
  from assms have al: "take_bit 2 x = 0"
    and lo: "- (2 ^ 23) \<le> sint (signed_drop_bit 2 x)"
    and hi: "sint (signed_drop_bit 2 x) < 2 ^ 23"
    by (simp_all add: canEncodeBranchOffset_def IsAligned_def IsInt_def
        kBranchOffsetBits_def and_3_take_bit)
  show ?thesis
    unfolding decodeBranchOffset_def Let_def mask_merge kBranchOffsetMask_def
    by (simp only: push_bit_8_mask24 field_roundtrip [OF al lo hi])
qed

lemma IsAligned_minus_bias: "IsAligned (Offset - kPCReadOffset) 4 = IsAligned Offset 4"
proof -
  have "(4 :: 32 word) dvd 8"
    by (rule dvdI [of _ _ 2]) simp
  then have "((4 :: 32 word) dvd Offset - 8) = (4 dvd Offset)"
    by (rule dvd_diff_left_iff)
  then show ?thesis
    by (simp add: IsAligned_def kPCReadOffset_def and_3_take_bit take_bit_eq_0_iff)
qed

lemma decode_sign_extend:
  "decodeBranchOffset Inst = push_bit 2 (signed_take_bit 23 Inst) + kPCReadOffset"
proof -
  have m: "(0x00ffffff :: 32 word) = mask 24"
    by (simp add: mask_eq_exp_minus_1)
  have "signed_drop_bit 6 (push_bit 8 (take_bit 24 Inst)) = push_bit 2 (signed_take_bit 23 Inst)"
    by (rule bit_eqI) (auto simp: bit_simps)
  then show ?thesis
    unfolding decodeBranchOffset_def Let_def kBranchOffsetMask_def m
    by (simp only: take_bit_eq_mask)
qed

subsection \<open>The displacement codec is a round trip\<close>

text \<open>
  C2. For every 4-aligned byte offset whose biased value \<open>Offset - 8\<close>, shifted right by 2,
  fits the signed 24-bit field, encoding succeeds, and decoding the encoded word gives the
  offset back, whatever the other bits of the instruction word are. The encoded word keeps
  the bits of the instruction outside the field and has \<open>(Offset - 8) >> 2\<close> in the field;
  decoding any word sign-extends its 24-bit field, shifts it left by 2 and adds 8.
\<close>

theorem decode_encode_branch_offset:
  assumes "IsAligned Offset 4"
    and "IsInt 24 (signed_drop_bit 2 (Offset - kPCReadOffset))"
  shows "\<exists>Encoded. encodeBranchOffset Offset Inst = Inr Encoded
           \<and> decodeBranchOffset Encoded = Offset
           \<and> Encoded = (Inst AND NOT 0x00ffffff)
                          OR (signed_drop_bit 2 (Offset - 8) AND 0x00ffffff)
           \<and> decodeBranchOffset Encoded = push_bit 2 (signed_take_bit 23 Encoded) + 8"
proof -
  have can: "canEncodeBranchOffset (Offset - kPCReadOffset)"
    using assms by (simp add: canEncodeBranchOffset_def IsAligned_minus_bias kBranchOffsetBits_def)
  have enc: "encodeBranchOffset Offset Inst
      = Inr ((Inst AND NOT kBranchOffsetMask)
              OR (signed_drop_bit 2 (Offset - kPCReadOffset) AND kBranchOffsetMask))"
    using can by (simp add: encodeBranchOffset_def Let_def check_def andThen_def)
  have dec: "decodeBranchOffset ((Inst AND NOT kBranchOffsetMask)
              OR (signed_drop_bit 2 (Offset - kPCReadOffset) AND kBranchOffsetMask)) = Offset"
    using decode_encoded_word [OF can] by simp
  show ?thesis
    using enc dec decode_sign_extend
    by (simp add: kBranchOffsetMask_def kPCReadOffset_def)
qed

theorem decode_encode_branch_offset_witness:
  "IsAligned 12 4 \<and> IsInt 24 (signed_drop_bit 2 (12 - kPCReadOffset))
   \<and> encodeBranchOffset 12 0xEA000000 = Inr 0xEA000001
   \<and> decodeBranchOffset 0xEA000001 = 12"
proof -
  have a: "IsAligned 12 4"
    by (simp add: IsAligned_def)
  have i: "IsInt 24 (signed_drop_bit 2 (12 - kPCReadOffset))"
    by (simp add: IsInt_def kPCReadOffset_def)
  from decode_encode_branch_offset [OF a i, of "0xEA000000"] a i
  show ?thesis
    by (simp add: kPCReadOffset_def)
qed

subsection \<open>Data-processing immediates\<close>

lemmas emit_defs = andThen_def check_def encodeGPRegister_def encodeRegister_def
  getEncodedGPRegNum_def encodeRotatedImm8_def emitInst_def
  kRotateBits_def kImmed8Bits_def kRotateShift_def kImmed8Shift_def
  kConditionShift_def kTypeShift_def kOpcodeShift_def kSShift_def kRnShift_def kRdShift_def
  getNumGPRegs_def isDefined_def encodeBool_def

lemma canHoldImm_5: "canHoldImm 5 = Some (0, 5)"
  by code_simp

lemma canHoldImm_FF000001: "canHoldImm 0xFF000001 = None"
  by code_simp

lemma le_255_iff: "(x :: 32 word) \<le> 0xFF \<longleftrightarrow> x < 256"
  by (simp add: word_le_nat_alt word_less_nat_alt) arith

lemma canHoldImm_None_iff:
  "canHoldImm Value = None \<longleftrightarrow>
     (\<forall>rotate imm8. rotate < 16 \<and> imm8 < 256 \<longrightarrow> word_rotr (rotate * 2) imm8 \<noteq> Value)"
proof
  assume n: "canHoldImm Value = None"
  then have all: "\<forall>Rot<16. \<not> word_rotl (2 * Rot) Value < 256"
    by (auto simp: canHoldImm_def find_None_iff le_255_iff split: option.splits)
  show "\<forall>rotate imm8. rotate < 16 \<and> imm8 < 256 \<longrightarrow> word_rotr (rotate * 2) imm8 \<noteq> Value"
  proof (intro allI impI notI)
    fix rotate :: nat and imm8 :: "32 word"
    assume h: "rotate < 16 \<and> imm8 < 256" and e: "word_rotr (rotate * 2) imm8 = Value"
    have "word_rotl (2 * rotate) Value = imm8"
      unfolding e [symmetric] by (simp add: mult.commute word_rot_rl)
    with h all show False
      by blast
  qed
next
  assume a: "\<forall>rotate imm8. rotate < 16 \<and> imm8 < 256 \<longrightarrow> word_rotr (rotate * 2) imm8 \<noteq> Value"
  have "\<not> word_rotl (2 * Rot) Value \<le> 0xFF" if "Rot < 16" for Rot
  proof
    assume "word_rotl (2 * Rot) Value \<le> 0xFF"
    then have "word_rotl (2 * Rot) Value < 256"
      by (simp only: le_255_iff)
    with a that have "word_rotr (Rot * 2) (word_rotl (2 * Rot) Value) \<noteq> Value"
      by blast
    then show False
      by (simp add: mult.commute word_rot_lr)
  qed
  then show "canHoldImm Value = None"
    by (auto simp: canHoldImm_def find_None_iff split: option.splits)
qed

text \<open>
  C3. A \<^verbatim>\<open>mov\<close> of the constant 5 into r0 under the always-condition (\<^verbatim>\<open>mov\<close> never sets
  flags) appends exactly the word \<open>0xE3A00005\<close>, in every build, whether the constant comes
  as a raw 32-bit constant or as a rotated immediate with value 5 and rotation 0.
\<close>

theorem mov_r0_imm5:
  "mov minimal (OpVariable \<lparr>hasReg = True, EncodedGPR = Encoded_Reg_r0, EncodedSReg = s,
        EncodedDReg = d, StackOffset = off, BaseRegNum = base\<rparr>) (ConstantInteger32 5) AL Buffer
     = Inr (Buffer @ [0xE3A00005])
   \<and> mov minimal (OpVariable \<lparr>hasReg = True, EncodedGPR = Encoded_Reg_r0, EncodedSReg = s,
        EncodedDReg = d, StackOffset = off, BaseRegNum = base\<rparr>) (OperandARM32FlexImm 5 0) AL Buffer
     = Inr (Buffer @ [0xE3A00005])"
  by (simp add: mov_def emitType01_Src_def emitType01_def canHoldImm_5 emit_defs
      verifyRegNotPcWhenSetFlags_def Encoded_Reg_r0_def Encoded_Reg_pc_def
      kInstTypeDataImmediate_def B0_def B2_def B3_def)

text \<open>
  C4. When no pair (rotate, imm8) with \<open>rotate < 16\<close> and \<open>imm8 < 256\<close> gives the constant
  as \<open>imm8\<close> rotated right by \<open>2 * rotate\<close>, a data-processing emission with that
  constant as source operand ends in an error and returns no buffer: the emitter that takes
  register numbers reports \<^verbatim>\<open>Immediate rotated constant not valid\<close>, and the emitters that
  take operands end in an error as well. \<open>0xFF000001\<close> is such a constant.
\<close>

theorem unencodable_constant_is_fatal:
  assumes "\<forall>rotate imm8. rotate < 16 \<and> imm8 < 256 \<longrightarrow> word_rotr (rotate * 2) imm8 \<noteq> Value"
  shows "emitType01_Src minimal Cond Opcode Rd Rn (ConstantInteger32 Value) SetFlags RuleChecks
             InstName Buffer
           = Inl (FatalError (InstName @ '': Immediate rotated constant not valid''))
       \<and> isl (emitType01_Ops minimal Cond Opcode OpRd OpRn (ConstantInteger32 Value) SetFlags
                RuleChecks InstName Buffer)
       \<and> isl (mov minimal OpRd (ConstantInteger32 Value) Cond Buffer)
       \<and> isl (add minimal OpRd OpRn (ConstantInteger32 Value) SetFlags Cond Buffer)
       \<and> isl (sub minimal OpRd OpRn (ConstantInteger32 Value) SetFlags Cond Buffer)"
proof -
  have none: "canHoldImm Value = None"
    using assms by (simp only: canHoldImm_None_iff)
  have src: "emitType01_Src minimal Cond Opcode Rd Rn (ConstantInteger32 Value) SetFlags RuleChecks
             InstName Buffer
           = Inl (FatalError (InstName @ '': Immediate rotated constant not valid''))"
    for Cond Opcode Rd Rn SetFlags RuleChecks InstName
    by (simp add: emitType01_Src_def andThen_def none)
  have ops: "isl (emitType01_Ops minimal Cond Opcode OpRd OpRn (ConstantInteger32 Value) SetFlags
                RuleChecks InstName Buffer)" for Cond Opcode SetFlags RuleChecks InstName
    by (simp add: emitType01_Ops_def andThen_def src split: sum.splits)
  have m: "isl (mov minimal OpRd (ConstantInteger32 Value) Cond Buffer)"
    by (simp add: mov_def andThen_def src split: sum.splits)
  show ?thesis
    using src ops m by (simp add: add_def sub_def)
qed

theorem unencodable_constant_is_fatal_witness:
  "canHoldImm 0xFF000001 = None
   \<and> emitType01_Src False AL 13 0 0 (ConstantInteger32 0xFF000001) False RdIsPcAndSetFlags
        ''mov'' []
       = Inl (FatalError ''mov: Immediate rotated constant not valid'')"
proof -
  have h: "\<forall>rotate imm8. rotate < 16 \<and> imm8 < 256
      \<longrightarrow> word_rotr (rotate * 2) imm8 \<noteq> (0xFF000001 :: 32 word)"
    using canHoldImm_FF000001 by (simp only: canHoldImm_None_iff)
  from unencodable_constant_is_fatal
    [OF h, of False AL 13 0 0 False RdIsPcAndSetFlags "''mov''" "[]"] canHoldImm_FF000001
  show ?thesis
    by simp
qed

subsection \<open>Legality checks of the emitters\<close>

lemmas verify_defs = verifyPOrNotW_def verifyRegsNotEq_def verifyRegNotPc_def
  verifyRegNotPcWhenSetFlags_def

lemmas reg_defs = Encoded_Reg_pc_def Encoded_Reg_sp_def Encoded_Reg_r0_def

lemma not_isBitSet_W_0: "\<not> isBitSet W 0"
  by (simp add: isBitSet_def W_def)

lemma encodeAddress_kinds:
  assumes "encodeAddress OpAddress FrameOrStackReg ImmEncoding = Inr (Kind, Address)"
  shows "Kind = EncodedAsImmRegOffset \<or> Kind = EncodedAsShiftRotateImm5
          \<or> (Kind = CantEncode \<and> Address = 0)"
  using assms
  by (auto simp: encodeAddress_def andThen_def Let_def
      split: Operand.splits if_splits sum.splits)

text \<open>
  C5. Binding a label that is already bound is rejected: the assertion of \<^verbatim>\<open>bind\<close> fails
  and no label or buffer is returned. Whenever \<^verbatim>\<open>bind\<close> succeeds, the label was not bound.
\<close>

theorem bind_bound_label_rejected:
  "(isBound Lbl \<longrightarrow> bind Lbl Buffer = Some (Inl (AssertFailed ''!L->isBound()'')))
   \<and> (bind Lbl Buffer = Some (Inr r) \<longrightarrow> \<not> isBound Lbl)"
  by (auto simp: bind_def Let_def)

theorem bind_bound_label_rejected_witness:
  "isBound \<lparr>Position = - 4\<rparr>
   \<and> bind \<lparr>Position = - 4\<rparr> [] = Some (Inl (AssertFailed ''!L->isBound()''))
   \<and> bind \<lparr>Position = 0\<rparr> [] = Some (Inr (\<lparr>Position = - 4\<rparr>, []))
   \<and> \<not> isBound \<lparr>Position = 0\<rparr>"
  using bind_bound_label_rejected [of "\<lparr>Position = - 4\<rparr>" "[]"]
    bind_bound_label_rejected [of "\<lparr>Position = 0\<rparr>" "[]" "(\<lparr>Position = - 4\<rparr>, [])"]
  by (simp add: bind_def bind_loop.simps isBound_def isLinked_def buffer_size_def bindTo_def
      andThen_def check_def)

text \<open>
  C6, as the code has it. The check of the destination register is skipped in a minimal
  build. In a build that is not minimal, a data-processing emission that sets the flags
  with the program counter as destination ends in an error before \<^verbatim>\<open>emitInst\<close>, and
  returns no buffer: the emitter that takes the encoded fields reports
  \<^verbatim>\<open>pc=pc not allowed when CC=1\<close>, and the emitters that take operands (which may fail
  earlier, on an operand) end in an error too.
\<close>

theorem set_flags_with_pc_rejected:
  assumes "\<not> minimal" and "SetFlags"
    and "encodeOperand OpRd WantGPRegs = Inr (EncodedAsRegister, Encoded_Reg_pc)"
  shows "emitType01 minimal Cond InstType Opcode SetFlags Rn Encoded_Reg_pc Imm12
           RdIsPcAndSetFlags InstName Buffer
           = Inl (FatalError (InstName @ '': pc=pc not allowed when CC=1''))
       \<and> isl (emitType01_Src minimal Cond Opcode Encoded_Reg_pc Rn OpSrc1 SetFlags
                RdIsPcAndSetFlags InstName Buffer)
       \<and> isl (emitType01_Ops minimal Cond Opcode OpRd OpRn OpSrc1 SetFlags
                RdIsPcAndSetFlags InstName Buffer)
       \<and> isl (adc minimal OpRd OpRn OpSrc1 SetFlags Cond Buffer)
       \<and> isl (add minimal OpRd OpRn OpSrc1 SetFlags Cond Buffer)
       \<and> isl (and_inst minimal OpRd OpRn OpSrc1 SetFlags Cond Buffer)
       \<and> isl (bic minimal OpRd OpRn OpSrc1 SetFlags Cond Buffer)
       \<and> isl (eor minimal OpRd OpRn OpSrc1 SetFlags Cond Buffer)
       \<and> isl (orr minimal OpRd OpRn OpSrc1 SetFlags Cond Buffer)
       \<and> isl (rsb minimal OpRd OpRn OpSrc1 SetFlags Cond Buffer)
       \<and> isl (rsc minimal OpRd OpRn OpSrc1 SetFlags Cond Buffer)
       \<and> isl (sbc minimal OpRd OpRn OpSrc1 SetFlags Cond Buffer)
       \<and> isl (sub minimal OpRd OpRn OpSrc1 SetFlags Cond Buffer)"
proof -
  have base: "emitType01 minimal Cond InstType Opcode SetFlags Rn Encoded_Reg_pc Imm12
           RdIsPcAndSetFlags InstName Buffer
           = Inl (FatalError (InstName @ '': pc=pc not allowed when CC=1''))"
    for Cond InstType Opcode Rn Imm12 InstName
    using assms(1,2) by (simp add: emitType01_def verifyRegNotPcWhenSetFlags_def andThen_def)
  have src: "isl (emitType01_Src minimal Cond Opcode Encoded_Reg_pc Rn OpSrc1 SetFlags
                RdIsPcAndSetFlags InstName Buffer)" for Cond Opcode Rn InstName
    by (simp add: emitType01_Src_def andThen_def base
        split: sum.splits prod.splits EncodedOperand.splits option.splits)
  have ops: "isl (emitType01_Ops minimal Cond Opcode OpRd OpRn OpSrc1 SetFlags
                RdIsPcAndSetFlags InstName Buffer)" for Cond Opcode InstName
    using assms(3) src
    by (simp add: emitType01_Ops_def encodeGPRegister_def encodeRegister_def andThen_def
        split: sum.splits)
  show ?thesis
    using base src ops
    by (simp add: adc_def add_def and_inst_def bic_def eor_def orr_def rsb_def rsc_def
        sbc_def sub_def)
qed

theorem set_flags_with_pc_rejected_witness:
  "encodeOperand (OpVariable \<lparr>hasReg = True, EncodedGPR = 15, EncodedSReg = 0,
          EncodedDReg = 0, StackOffset = 0, BaseRegNum = None\<rparr>) WantGPRegs
        = Inr (EncodedAsRegister, Encoded_Reg_pc)
   \<and> emitType01 False AL 0 4 True 0 Encoded_Reg_pc 1 RdIsPcAndSetFlags ''add'' []
        = Inl (FatalError ''add: pc=pc not allowed when CC=1'')"
proof -
  have r: "encodeOperand (OpVariable \<lparr>hasReg = True, EncodedGPR = 15, EncodedSReg = 0,
          EncodedDReg = 0, StackOffset = 0, BaseRegNum = None\<rparr>) WantGPRegs
        = Inr (EncodedAsRegister, Encoded_Reg_pc)"
    by (simp add: emit_defs reg_defs)
  from set_flags_with_pc_rejected [of False True, OF _ _ r, of AL 0 4 0 1 "''add''" "[]"] r
  show ?thesis
    by simp
qed

text \<open>
  In a minimal build, \<^verbatim>\<open>adds pc, r0, r1\<close> is emitted.
\<close>

theorem set_flags_with_pc_minimal_build:
  "add True
     (OpVariable \<lparr>hasReg = True, EncodedGPR = Encoded_Reg_pc, EncodedSReg = 0,
        EncodedDReg = 0, StackOffset = 0, BaseRegNum = None\<rparr>)
     (OpVariable \<lparr>hasReg = True, EncodedGPR = 0, EncodedSReg = 0,
        EncodedDReg = 0, StackOffset = 0, BaseRegNum = None\<rparr>)
     (OpVariable \<lparr>hasReg = True, EncodedGPR = 1, EncodedSReg = 0,
        EncodedDReg = 0, StackOffset = 0, BaseRegNum = None\<rparr>) True AL []
   = Inr [0xE090F001]"
  by (simp add: add_def emitType01_Ops_def emitType01_Src_def emitType01_def emit_defs reg_defs
      verify_defs encodeShiftRotateImm5_def kShiftImmBits_def kShiftImmShift_def kShiftShift_def
      kInstTypeDataRegister_def B2_def)

text \<open>
  C7. A \<^verbatim>\<open>pop\<close> of one general-purpose register \<open>Rt\<close> other than the stack pointer, under a
  defined condition, appends exactly the word \<open>cccc010010011101dddd000000000100\<close>: the
  condition in bits 28 to 31, \<open>Rt\<close> in bits 12 to 15, and \<open>0x049D0004\<close> for the load form
  with base sp, post-indexed, offset +4.
\<close>

theorem pop_single_register:
  assumes "hasReg OpRt" and "EncodedGPR OpRt = Rt"
    and "Rt < 16" and "Rt \<noteq> Encoded_Reg_sp" and "isDefined Cond"
  shows "pop minimal OpRt Cond Buffer
     = Inr (Buffer @ [push_bit 28 (encodeCondition Cond) OR 0x049D0004 OR push_bit 12 Rt])"
  using assms
  by (simp add: pop_def emitMemOp_def encodeImmRegOffset_def emit_defs verifyRegsNotEq_def
       kWordSize_def U_def L_def Encoded_Reg_sp_def kInstTypeMemImmediate_def
       or.assoc or.commute or.left_commute)

theorem pop_single_register_witness:
  "(3 :: IValueT) < 16 \<and> 3 \<noteq> Encoded_Reg_sp \<and> isDefined AL
   \<and> pop False \<lparr>hasReg = True, EncodedGPR = 3, EncodedSReg = 0,
          EncodedDReg = 0, StackOffset = 0, BaseRegNum = None\<rparr> AL [] = Inr [0xE49D3004]
   \<and> pop True \<lparr>hasReg = True, EncodedGPR = 3, EncodedSReg = 0,
          EncodedDReg = 0, StackOffset = 0, BaseRegNum = None\<rparr> AL [] = Inr [0xE49D3004]"
proof -
  let ?r3 = "\<lparr>hasReg = True, EncodedGPR = 3, EncodedSReg = 0,
          EncodedDReg = 0, StackOffset = 0, BaseRegNum = None\<rparr>"
  have r: "hasReg ?r3" "EncodedGPR ?r3 = 3"
    by simp_all
  have c: "(3 :: IValueT) < 16" "3 \<noteq> Encoded_Reg_sp" "isDefined AL"
    by (simp_all add: reg_defs isDefined_def)
  from pop_single_register [OF r c, of False "[]"] pop_single_register [OF r c, of True "[]"] c
  show ?thesis
    by simp
qed

text \<open>
  The check of \<^verbatim>\<open>emitMemOp\<close>. In a build that is not minimal, an encoded address with W set
  and P clear ends the emission in a fatal error and no buffer is returned:
  \<^verbatim>\<open>P=0 when W=1 not allowed\<close>, or, for an immediate-offset address with the program counter
  as base, the earlier \<^verbatim>\<open>Rn=pc not allowed\<close>.
\<close>

lemma P_clear_W_set_is_fatal:
  assumes "\<not> minimal"
    and "encodeAddress OpAddress FrameOrStackReg Imm12Address = Inr (Kind, Address)"
    and "\<not> isBitSet P Address" and "isBitSet W Address"
  shows "emitMemOp_Address minimal Cond IsLoad IsByte Rt OpAddress FrameOrStackReg InstName Buffer
     = Inl (FatalError (InstName @
         (if Kind = EncodedAsImmRegOffset \<and> getGPRReg kRnShift Address = Encoded_Reg_pc
          then '': Rn=pc not allowed'' else '': P=0 when W=1 not allowed'')))"
proof -
  from encodeAddress_kinds [OF assms(2)] assms(4)
  consider "Kind = EncodedAsImmRegOffset" | "Kind = EncodedAsShiftRotateImm5"
    by (auto simp: not_isBitSet_W_0)
  then show ?thesis
  proof cases
    case 1
    with assms show ?thesis
      by (simp add: emitMemOp_Address_def andThen_def Let_def verify_defs)
  next
    case 2
    with assms show ?thesis
      by (simp add: emitMemOp_Address_def andThen_def Let_def verify_defs)
  qed
qed


















text \<open>
  C9, as the code has it. With a register-indexed address whose W bit is set, the register
  that must differ from the base register \<open>Rn\<close> is the transfer register \<open>Rt\<close>, not the
  index register, and the check is skipped in a minimal build. In a build that is not
  minimal, such an emission with \<open>Rn = Rt\<close> ends in a fatal error and returns no buffer;
  the error is \<^verbatim>\<open>Rn=Rt not allowed\<close> when the earlier checks pass (P set, neither the index
  register nor \<open>Rt\<close> the program counter).
\<close>

theorem writeback_base_equals_Rt_rejected:
  assumes "\<not> minimal"
    and "encodeAddress OpAddress FrameOrStackReg Imm12Address
           = Inr (EncodedAsShiftRotateImm5, Address)"
    and "isBitSet W Address"
    and "getGPRReg kRnShift Address = Rt"
  shows "(\<exists>msg. emitMemOp_Address minimal Cond IsLoad IsByte Rt OpAddress FrameOrStackReg
                  InstName Buffer = Inl (FatalError msg))
       \<and> (isBitSet P Address \<and> getGPRReg kRmShift Address \<noteq> Encoded_Reg_pc
            \<and> Rt \<noteq> Encoded_Reg_pc
          \<longrightarrow> emitMemOp_Address minimal Cond IsLoad IsByte Rt OpAddress FrameOrStackReg
                  InstName Buffer = Inl (FatalError (InstName @ '': Rn=Rt not allowed'')))"
  using assms
  by (simp add: emitMemOp_Address_def andThen_def Let_def verify_defs)

theorem writeback_base_equals_Rt_rejected_witness:
  "encodeAddress (OperandARM32Mem_Reg
          \<lparr>hasReg = True, EncodedGPR = 1, EncodedSReg = 0,
            EncodedDReg = 0, StackOffset = 0, BaseRegNum = None\<rparr>
          \<lparr>hasReg = True, EncodedGPR = 2, EncodedSReg = 0,
            EncodedDReg = 0, StackOffset = 0, BaseRegNum = None\<rparr>
          kNoShift 0 AddrMode_PreIndex) 11 Imm12Address
        = Inr (EncodedAsShiftRotateImm5, 0x01A10002)
   \<and> isBitSet W 0x01A10002 \<and> getGPRReg kRnShift 0x01A10002 = 1
   \<and> isBitSet P 0x01A10002 \<and> getGPRReg kRmShift 0x01A10002 \<noteq> Encoded_Reg_pc
   \<and> 1 \<noteq> Encoded_Reg_pc
   \<and> emitMemOp_Address False AL True False 1
        (OperandARM32Mem_Reg
          \<lparr>hasReg = True, EncodedGPR = 1, EncodedSReg = 0,
            EncodedDReg = 0, StackOffset = 0, BaseRegNum = None\<rparr>
          \<lparr>hasReg = True, EncodedGPR = 2, EncodedSReg = 0,
            EncodedDReg = 0, StackOffset = 0, BaseRegNum = None\<rparr>
          kNoShift 0 AddrMode_PreIndex) 11 ''ldr'' []
        = Inl (FatalError ''ldr: Rn=Rt not allowed'')"
proof -
  have a: "encodeAddress (OperandARM32Mem_Reg
          \<lparr>hasReg = True, EncodedGPR = 1, EncodedSReg = 0,
            EncodedDReg = 0, StackOffset = 0, BaseRegNum = None\<rparr>
          \<lparr>hasReg = True, EncodedGPR = 2, EncodedSReg = 0,
            EncodedDReg = 0, StackOffset = 0, BaseRegNum = None\<rparr>
          kNoShift 0 AddrMode_PreIndex) 11 Imm12Address
        = Inr (EncodedAsShiftRotateImm5, 0x01A10002)"
    by code_simp
  have w: "isBitSet W 0x01A10002" and p: "isBitSet P 0x01A10002"
    by (simp_all add: isBitSet_def P_def W_def)
  have rn: "getGPRReg kRnShift 0x01A10002 = 1"
    and rm: "getGPRReg kRmShift 0x01A10002 \<noteq> Encoded_Reg_pc"
    and rt: "(1 :: IValueT) \<noteq> Encoded_Reg_pc"
    by (simp_all add: getGPRReg_def kRnShift_def kRmShift_def Encoded_Reg_pc_def)
  from writeback_base_equals_Rt_rejected [of False, OF _ a w rn, of AL True False "''ldr''" "[]"]
    a w p rn rm rt
  show ?thesis
    by simp
qed

text \<open>
  \<^verbatim>\<open>ldr r0, [r1, r1]!\<close>, with the base register equal to the index register and writeback,
  is emitted in a build that is not minimal.
\<close>

theorem writeback_base_equals_index_emitted:
  "emitMemOp_Address False AL True False 0
        (OperandARM32Mem_Reg
          \<lparr>hasReg = True, EncodedGPR = 1, EncodedSReg = 0,
            EncodedDReg = 0, StackOffset = 0, BaseRegNum = None\<rparr>
          \<lparr>hasReg = True, EncodedGPR = 1, EncodedSReg = 0,
            EncodedDReg = 0, StackOffset = 0, BaseRegNum = None\<rparr>
          kNoShift 0 AddrMode_PreIndex) 11 ''ldr'' []
     = Inr [0xE7B10001]"
  by code_simp

text \<open>
  C10, as the code has it. The check is skipped in a minimal build. In a build that is not
  minimal, \<^verbatim>\<open>pop\<close> and \<^verbatim>\<open>push\<close> of the stack pointer end in the fatal error
  \<^verbatim>\<open>Rt=sp not allowed\<close> and return no buffer.
\<close>

theorem push_pop_of_sp_rejected:
  assumes "\<not> minimal"
    and "hasReg Var" and "EncodedGPR Var = Encoded_Reg_sp"
    and "encodeOperand OpRt WantGPRegs = Inr (EncodedAsRegister, Encoded_Reg_sp)"
  shows "pop minimal Var Cond Buffer = Inl (FatalError ''pop: Rt=sp not allowed'')
       \<and> push minimal OpRt Cond Buffer = Inl (FatalError ''push: Rt=sp not allowed'')
       \<and> push minimal (OpVariable Var) Cond Buffer
            = Inl (FatalError ''push: Rt=sp not allowed'')"
  using assms
  by (simp add: pop_def push_def encodeGPRegister_def encodeRegister_def andThen_def
      verifyRegsNotEq_def getEncodedGPRegNum_def check_def)

theorem push_pop_of_sp_rejected_witness:
  "encodeOperand (OpVariable \<lparr>hasReg = True, EncodedGPR = 13, EncodedSReg = 0,
          EncodedDReg = 0, StackOffset = 0, BaseRegNum = None\<rparr>) WantGPRegs
        = Inr (EncodedAsRegister, Encoded_Reg_sp)
   \<and> pop False \<lparr>hasReg = True, EncodedGPR = 13, EncodedSReg = 0,
          EncodedDReg = 0, StackOffset = 0, BaseRegNum = None\<rparr> AL []
        = Inl (FatalError ''pop: Rt=sp not allowed'')
   \<and> push False (OpVariable \<lparr>hasReg = True, EncodedGPR = 13, EncodedSReg = 0,
          EncodedDReg = 0, StackOffset = 0, BaseRegNum = None\<rparr>) AL []
        = Inl (FatalError ''push: Rt=sp not allowed'')"
proof -
  have r: "encodeOperand (OpVariable \<lparr>hasReg = True, EncodedGPR = 13, EncodedSReg = 0,
          EncodedDReg = 0, StackOffset = 0, BaseRegNum = None\<rparr>) WantGPRegs
        = Inr (EncodedAsRegister, Encoded_Reg_sp)"
    by (simp add: emit_defs reg_defs)
  have v: "hasReg \<lparr>hasReg = True, EncodedGPR = 13, EncodedSReg = 0,
          EncodedDReg = 0, StackOffset = 0, BaseRegNum = None\<rparr>"
    "EncodedGPR \<lparr>hasReg = True, EncodedGPR = 13, EncodedSReg = 0,
          EncodedDReg = 0, StackOffset = 0, BaseRegNum = None\<rparr> = Encoded_Reg_sp"
    by (simp_all add: reg_defs)
  from push_pop_of_sp_rejected [of False, OF _ v r, of AL "[]"] r
  show ?thesis
    by simp
qed

text \<open>
  In a minimal build, \<^verbatim>\<open>pop {sp}\<close> is emitted.
\<close>

theorem pop_of_sp_minimal_build:
  "pop True \<lparr>hasReg = True, EncodedGPR = Encoded_Reg_sp, EncodedSReg = 0,
          EncodedDReg = 0, StackOffset = 0, BaseRegNum = None\<rparr> AL [] = Inr [0xE49DD004]"
  by (simp add: pop_def emitMemOp_def encodeImmRegOffset_def emit_defs verifyRegsNotEq_def
       kWordSize_def U_def L_def reg_defs kInstTypeMemImmediate_def)

subsection \<open>Binding a label patches its forward references\<close>

lemma sint_of_int_32: "- (2 ^ 31) \<le> k \<Longrightarrow> k < 2 ^ 31 \<Longrightarrow> sint (word_of_int k :: 32 word) = k"
  by (simp add: sint_sbintrunc' signed_take_bit_int_eq_self)



lemma take_bit_2_of_int:
  assumes "k mod 4 = 0"
  shows "take_bit 2 (word_of_int k :: 32 word) = 0"
proof -
  from assms have "take_bit 2 k = 0"
    by (simp add: take_bit_eq_mod)
  then have "word_of_int (take_bit 2 k) = (0 :: 32 word)"
    by simp
  then show ?thesis
    by (simp only: take_bit_of_int)
qed

lemma canEncode_of_int:
  assumes "k mod 4 = 0" and "- (2 ^ 25) \<le> k" and "k < 2 ^ 25"
  shows "canEncodeBranchOffset (word_of_int k)"
proof -
  have s: "sint (word_of_int k :: 32 word) = k"
    using assms by (intro sint_of_int_32) auto
  have d: "sint (signed_drop_bit 2 (word_of_int k :: 32 word)) = k div 4"
    by (simp add: sint_signed_drop_bit_eq s drop_bit_eq_div)
  have r: "- (2 ^ 23) \<le> k div 4" "k div 4 < 2 ^ 23"
    using assms by auto
  show ?thesis
    using r assms(1)
    by (simp add: canEncodeBranchOffset_def IsAligned_def IsInt_def kBranchOffsetBits_def
        and_3_take_bit take_bit_2_of_int d)
qed

lemma encodeBranchOffset_Inr:
  assumes "encodeBranchOffset Offset Inst = Inr w"
  shows "decodeBranchOffset w = Offset"
    and "w AND NOT kBranchOffsetMask = Inst AND NOT kBranchOffsetMask"
proof -
  from assms have can: "canEncodeBranchOffset (Offset - kPCReadOffset)"
    and w: "w = (Inst AND NOT kBranchOffsetMask)
                  OR (signed_drop_bit 2 (Offset - kPCReadOffset) AND kBranchOffsetMask)"
    by (auto simp: encodeBranchOffset_def Let_def andThen_def check_def split: if_splits)
  show "decodeBranchOffset w = Offset"
    unfolding w using decode_encoded_word [OF can] by simp
  show "w AND NOT kBranchOffsetMask = Inst AND NOT kBranchOffsetMask"
    unfolding w by (rule bit_eqI) (auto simp: bit_simps)
qed

lemma encodeBranchOffset_of_int:
  assumes "d mod 4 = 0" and "0 \<le> d" and "d - 8 < 2 ^ 25"
  shows "\<exists>w. encodeBranchOffset (word_of_int d) Inst = Inr w"
proof -
  have "(d - 8) mod 4 = 0"
    using assms(1) by presburger
  then have "canEncodeBranchOffset (word_of_int (d - 8))"
    using assms by (intro canEncode_of_int) auto
  then show ?thesis
    by (simp add: encodeBranchOffset_def Let_def andThen_def check_def kPCReadOffset_def)
qed

lemma emitBranch_unbound:
  assumes "\<not> isBound Lbl" and "emitBranch Lbl Cond Link Buffer = Inr (Lbl1, Buffer1)"
  shows "\<exists>w. Buffer1 = Buffer @ [w]
           \<and> decodeBranchOffset w = word_of_int (Position Lbl)
           \<and> Position Lbl1 = sint (word_of_int (buffer_size Buffer) :: 32 word) + 4"
proof -
  from assms obtain Enc w where e: "encodeBranchOffset (word_of_int (Position Lbl)) Enc = Inr w"
    and b1: "Buffer1 = Buffer @ [w]"
    and l1: "linkTo Lbl (sint (word_of_int (buffer_size Buffer) :: 32 word)) = Inr Lbl1"
    by (auto simp: emitBranch_def emitType05_def emitInst_def getEncodedPosition_def Let_def
        andThen_def check_def split: if_splits sum.splits)
  from l1 have "Position Lbl1 = sint (word_of_int (buffer_size Buffer) :: 32 word) + 4"
    by (auto simp: linkTo_def Let_def andThen_def check_def split: if_splits)
  with b1 encodeBranchOffset_Inr(1) [OF e] show ?thesis
    by blast
qed

lemma valid_position_append: "valid_position Buffer S \<Longrightarrow> valid_position (Buffer @ xs) S"
  by (simp add: valid_position_def buffer_size_def)

lemma valid_position_index: "valid_position Buffer S \<Longrightarrow> nat (S div 4) < length Buffer"
  by (auto simp: valid_position_def buffer_size_def)

lemma link_chain_sites_below:
  "link_chain Buffer p Sites \<Longrightarrow> \<forall>S\<in>set Sites. S + 4 \<le> p \<and> valid_position Buffer S"
proof (induction Sites arbitrary: p)
  case Nil
  then show ?case by simp
next
  case (Cons S Sites)
  then show ?case
    by (fastforce simp: Let_def)
qed

lemma link_chain_head_range:
  assumes "link_chain Buffer p Sites"
  shows "0 \<le> p \<and> p mod 4 = 0 \<and> p \<le> buffer_size Buffer"
proof (cases Sites)
  case Nil
  with assms show ?thesis
    by (simp add: buffer_size_def)
next
  case (Cons S Rest)
  with assms have "p = S + 4" and "valid_position Buffer S"
    by simp_all
  then show ?thesis
    unfolding valid_position_def buffer_size_def by presburger
qed

lemma link_chain_append: "link_chain Buffer p Sites \<Longrightarrow> link_chain (Buffer @ xs) p Sites"
proof (induction Sites arbitrary: p)
  case Nil
  then show ?case by simp
next
  case (Cons S Sites)
  then show ?case
    by (auto simp: Let_def valid_position_append nth_append valid_position_index)
qed

lemma link_chain_update:
  "link_chain Buffer p Sites \<Longrightarrow> \<forall>S\<in>set Sites. nat (S div 4) \<noteq> i \<Longrightarrow> link_chain (Buffer[i := v]) p Sites"
proof (induction Sites arbitrary: p)
  case Nil
  then show ?case by simp
next
  case (Cons S Sites)
  then show ?case
    by (auto simp: Let_def valid_position_def buffer_size_def)
qed


lemma buffer_store_Inr:
  assumes "buffer_store Buffer Pos Value = Inr Buffer1"
  shows "valid_position Buffer (sint Pos) \<and> Buffer1 = Buffer[nat (sint Pos div 4) := Value]"
  using assms by (auto simp: buffer_store_def andThen_def check_def split: if_splits)

lemma site_index_inj:
  assumes "valid_position Buffer S" and "valid_position Buffer T" and "S \<noteq> T"
  shows "nat (S div 4) \<noteq> nat (T div 4)"
proof
  assume e: "nat (S div 4) = nat (T div 4)"
  from assms have "0 \<le> S div 4 \<and> 0 \<le> T div 4"
    unfolding valid_position_def by presburger
  with e have "S div 4 = T div 4"
    by (simp only: eq_nat_nat_iff)
  moreover from assms have "S mod 4 = 0" and "T mod 4 = 0"
    by (simp_all add: valid_position_def)
  ultimately have "S = T"
    by presburger
  with assms(3) show False
    by simp
qed

lemma forward_refs_chain:
  "forward_refs Lbl Buffer Sites \<Longrightarrow> buffer_size Buffer < 2 ^ 31
     \<Longrightarrow> link_chain Buffer (Position Lbl) Sites"
proof (induction rule: forward_refs.induct)
  case (unused Lbl Buffer)
  then show ?case by simp
next
  case (branch Lbl Buffer Sites Cond Link Lbl1 Buffer1)
  from emitBranch_unbound [OF branch.hyps(2,3)]
  obtain w where b1: "Buffer1 = Buffer @ [w]"
    and dec: "decodeBranchOffset w = word_of_int (Position Lbl)"
    and p1: "Position Lbl1 = sint (word_of_int (buffer_size Buffer) :: 32 word) + 4"
    by blast
  have small: "buffer_size Buffer < 2 ^ 31"
    using branch.prems b1 by (simp add: buffer_size_def)
  have ch: "link_chain Buffer (Position Lbl) Sites"
    using branch.IH small by blast
  have rng: "0 \<le> Position Lbl" "Position Lbl \<le> buffer_size Buffer"
    using link_chain_head_range [OF ch] by simp_all
  have sz: "sint (word_of_int (buffer_size Buffer) :: 32 word) = buffer_size Buffer"
    using small by (intro sint_of_int_32) (auto simp: buffer_size_def)
  have nx: "sint (decodeBranchOffset w) = Position Lbl"
    unfolding dec using rng small by (intro sint_of_int_32) auto
  have v: "valid_position Buffer1 (buffer_size Buffer)"
    by (simp add: valid_position_def buffer_size_def b1)
  have ix: "Buffer1 ! nat (buffer_size Buffer div 4) = w"
    by (simp add: buffer_size_def b1)
  show ?case
    using v ix nx rng link_chain_append [OF ch, of "[w]"]
    by (simp add: p1 sz Let_def b1)
next
  case (other Lbl Buffer Sites Value Buffer1)
  then have b1: "Buffer1 = Buffer @ [Value]"
    by (simp add: emitInst_def)
  with other.prems have "buffer_size Buffer < 2 ^ 31"
    by (simp add: buffer_size_def)
  with other.IH show ?case
    unfolding b1 by (intro link_chain_append) blast
next
  case (patch Lbl Buffer Sites Pos Value Buffer1)
  from buffer_store_Inr [OF patch.hyps(3)]
  have v: "valid_position Buffer (sint Pos)"
    and b1: "Buffer1 = Buffer[nat (sint Pos div 4) := Value]"
    by simp_all
  from patch.prems have "buffer_size Buffer < 2 ^ 31"
    by (simp add: b1 buffer_size_def)
  with patch.IH have ch: "link_chain Buffer (Position Lbl) Sites"
    by blast
  have "\<forall>S\<in>set Sites. nat (S div 4) \<noteq> nat (sint Pos div 4)"
    using link_chain_sites_below [OF ch] patch.hyps(2) v
    by (metis site_index_inj)
  with ch show ?case
    unfolding b1 by (rule link_chain_update)
qed

lemma bind_loop_chain:
  assumes "link_chain Buffer (Position Lbl) Sites"
    and "buffer_size Buffer \<le> bp" and "\<forall>S\<in>set Sites. bp - S - 8 < 2 ^ 25"
    and "bp < 2 ^ 31" and "bp mod 4 = 0"
  shows "\<exists>Lbl1 Buffer1. bind_loop (word_of_int bp) Lbl Buffer = Some (Inr (Lbl1, Buffer1))
           \<and> Position Lbl1 = 0 \<and> length Buffer1 = length Buffer
           \<and> (\<forall>S\<in>set Sites. S + sint (decodeBranchOffset (Buffer1 ! nat (S div 4))) = bp)
           \<and> (\<forall>i. (\<forall>S\<in>set Sites. nat (S div 4) \<noteq> i) \<longrightarrow> Buffer1 ! i = Buffer ! i)
           \<and> (\<forall>i. Buffer1 ! i AND NOT kBranchOffsetMask = Buffer ! i AND NOT kBranchOffsetMask)"
  using assms(1,2,3)
proof (induction Sites arbitrary: Lbl Buffer)
  case Nil
  then have "\<not> isLinked Lbl" and "Position Lbl = 0"
    by (simp_all add: isLinked_def)
  then show ?case
    by (subst bind_loop.simps) simp
next
  case (Cons S Sites)
  let ?Inst = "Buffer ! nat (S div 4)"
  let ?next = "sint (decodeBranchOffset ?Inst)"
  from Cons.prems(1) have p: "Position Lbl = S + 4" and v: "valid_position Buffer S"
    and le: "?next \<le> S" and ch: "link_chain Buffer ?next Sites"
    by (simp_all add: Let_def)
  from v have S0: "0 \<le> S" and S4: "S mod 4 = 0" and Ssz: "S < buffer_size Buffer"
    by (simp_all add: valid_position_def)
  from Cons.prems(3) have far: "bp - S - 8 < 2 ^ 25"
    and fars: "\<forall>T\<in>set Sites. bp - T - 8 < 2 ^ 25"
    by simp_all
  have sS: "sint (word_of_int S :: 32 word) = S"
    using S0 Ssz Cons.prems(2) assms(4) by (intro sint_of_int_32) auto
  have d4: "(bp - S) mod 4 = 0"
    using S4 assms(5) by presburger
  obtain Patched where enc: "encodeBranchOffset (word_of_int (bp - S)) ?Inst = Inr Patched"
    using encodeBranchOffset_of_int [OF d4, of ?Inst] S0 Ssz Cons.prems(2) far by auto
  have decP: "sint (decodeBranchOffset Patched) = bp - S"
    unfolding encodeBranchOffset_Inr(1) [OF enc]
    using S0 Ssz Cons.prems(2) assms(4) by (intro sint_of_int_32) auto
  let ?Buffer1 = "Buffer[nat (S div 4) := Patched]"
  let ?Lbl1 = "setPosition Lbl ?next"
  have below: "\<forall>T\<in>set Sites. T + 4 \<le> ?next \<and> valid_position Buffer T"
    using link_chain_sites_below [OF ch] .
  have distinct: "\<forall>T\<in>set Sites. nat (T div 4) \<noteq> nat (S div 4)"
  proof
    fix T assume "T \<in> set Sites"
    with below le have "valid_position Buffer T" and "T \<noteq> S"
      by auto
    then show "nat (T div 4) \<noteq> nat (S div 4)"
      using v by (intro site_index_inj)
  qed
  have ch1: "link_chain ?Buffer1 (Position ?Lbl1) Sites"
    using link_chain_update [OF ch distinct] by (simp add: setPosition_def)
  have sz1: "buffer_size ?Buffer1 \<le> bp"
    using Cons.prems(2) by (simp add: buffer_size_def)
  from Cons.IH [OF ch1 sz1 fars]
  obtain Lbl2 Buffer2 where
    loop: "bind_loop (word_of_int bp) ?Lbl1 ?Buffer1 = Some (Inr (Lbl2, Buffer2))"
    and p2: "Position Lbl2 = 0" and len2: "length Buffer2 = length Buffer"
    and sites2: "\<forall>T\<in>set Sites. T + sint (decodeBranchOffset (Buffer2 ! nat (T div 4))) = bp"
    and same2: "\<forall>i. (\<forall>T\<in>set Sites. nat (T div 4) \<noteq> i) \<longrightarrow> Buffer2 ! i = ?Buffer1 ! i"
    and upper2: "\<forall>i. Buffer2 ! i AND NOT kBranchOffsetMask
                     = ?Buffer1 ! i AND NOT kBranchOffsetMask"
    by auto
  have step: "bind_loop (word_of_int bp) Lbl Buffer
      = bind_loop (word_of_int bp) ?Lbl1 ?Buffer1"
    using p S0 v enc
    by (subst bind_loop.simps)
      (simp add: isLinked_def getLinkPosition_def buffer_load_def buffer_store_def
        andThen_def check_def sS)
  have atS: "Buffer2 ! nat (S div 4) = Patched"
    using same2 distinct valid_position_index [OF v] by auto
  have upperS: "Patched AND NOT kBranchOffsetMask = ?Inst AND NOT kBranchOffsetMask"
    using encodeBranchOffset_Inr(2) [OF enc] .
  have "\<forall>i. Buffer2 ! i AND NOT kBranchOffsetMask = Buffer ! i AND NOT kBranchOffsetMask"
  proof
    fix i
    show "Buffer2 ! i AND NOT kBranchOffsetMask = Buffer ! i AND NOT kBranchOffsetMask"
      using upper2 upperS valid_position_index [OF v]
      by (cases "i = nat (S div 4)") auto
  qed
  moreover have "\<forall>i. (\<forall>T\<in>set (S # Sites). nat (T div 4) \<noteq> i) \<longrightarrow> Buffer2 ! i = Buffer ! i"
    using same2 by auto
  moreover have "\<forall>T\<in>set (S # Sites). T + sint (decodeBranchOffset (Buffer2 ! nat (T div 4))) = bp"
    using sites2 atS decP by auto
  ultimately show ?case
    using step loop p2 len2 by auto
qed


lemma link_chain_distinct: "link_chain Buffer p Sites \<Longrightarrow> distinct Sites"
proof (induction Sites arbitrary: p)
  case Nil
  then show ?case by simp
next
  case (Cons S Sites)
  from Cons.prems have le: "sint (decodeBranchOffset (Buffer ! nat (S div 4))) \<le> S"
    and ch: "link_chain Buffer (sint (decodeBranchOffset (Buffer ! nat (S div 4)))) Sites"
    by (simp_all add: Let_def)
  from link_chain_sites_below [OF ch] le have "S \<notin> set Sites"
    by auto
  with Cons.IH [OF ch] show ?case
    by simp
qed

lemma sint_raw_displacement:
  assumes "sint (decodeBranchOffset w) = d" and "0 \<le> d" and "d < 2 ^ 31"
  shows "sint (push_bit 2 (signed_take_bit 23 w) :: 32 word) + sint kPCReadOffset = d"
proof -
  let ?X = "push_bit 2 (signed_take_bit 23 w) :: 32 word"
  have "?X = decodeBranchOffset w - 8"
    by (simp add: decode_sign_extend kPCReadOffset_def)
  then have "sint ?X = signed_take_bit 31 (sint (decodeBranchOffset w) - sint (8 :: 32 word))"
    by (simp only: sint_word_diff) simp
  also have "\<dots> = signed_take_bit 31 (d - 8)"
    by (simp add: assms(1))
  also have "\<dots> = d - 8"
    using assms(2,3) by (intro signed_take_bit_int_eq_self) auto
  finally show ?thesis
    by (simp add: kPCReadOffset_def)
qed

text \<open>
  C1, as the code has it. A branch reaches \<open>2 ^ 25\<close> bytes and far jumps are not handled:
  the claim holds for the sites within that reach. Let a label, not yet bound, have been
  the target of any number of branches emitted at the positions \<open>Sites\<close>, let the
  displacement from every site to the end of the buffer, less the read-ahead bias, fit the
  field (be below \<open>2 ^ 25\<close>), and let the buffer be shorter than \<open>2 ^ 31\<close> bytes, the
  positions of an \<^verbatim>\<open>IOffsetT\<close>. Then \<^verbatim>\<open>bind\<close> returns; the label is bound at the buffer
  position of the call; the sites are distinct, and at every site \<open>S\<close> the word now
  stored decodes to an offset that, added to \<open>S\<close>, is that position: \<open>S\<close> plus the
  sign-extended field shifted left by 2 plus the read-ahead bias is the bound position. No
  other word of the buffer changes, and the patched words keep their bits outside the
  displacement field.
\<close>

theorem bind_patches_forward_references:
  assumes "forward_refs Lbl Buffer Sites"
    and "\<forall>S\<in>set Sites. buffer_size Buffer - S - 8 < 2 ^ 25"
    and "buffer_size Buffer < 2 ^ 31"
  shows "\<exists>Lbl1 Buffer1. bind Lbl Buffer = Some (Inr (Lbl1, Buffer1))
           \<and> isBound Lbl1 \<and> getPosition Lbl1 = Inr (buffer_size Buffer)
           \<and> length Buffer1 = length Buffer \<and> distinct Sites
           \<and> (\<forall>S\<in>set Sites. \<exists>w. buffer_load Buffer1 (word_of_int S) = Inr w
                  \<and> S + sint (decodeBranchOffset w) = buffer_size Buffer
                  \<and> S + sint (push_bit 2 (signed_take_bit 23 w) :: 32 word)
                       + sint kPCReadOffset = buffer_size Buffer)
           \<and> (\<forall>i. (\<forall>S\<in>set Sites. nat (S div 4) \<noteq> i) \<longrightarrow> Buffer1 ! i = Buffer ! i)
           \<and> (\<forall>i. Buffer1 ! i AND NOT kBranchOffsetMask = Buffer ! i AND NOT kBranchOffsetMask)"
proof -
  let ?bp = "buffer_size Buffer"
  have ch: "link_chain Buffer (Position Lbl) Sites"
    using forward_refs_chain [OF assms(1,3)] .
  have nb: "\<not> isBound Lbl"
    using link_chain_head_range [OF ch] by (simp add: isBound_def)
  have bp4: "?bp mod 4 = 0" and bp0: "0 \<le> ?bp"
    by (simp_all add: buffer_size_def)
  from bind_loop_chain [OF ch order_refl assms(2,3) bp4]
  obtain Lbl1 Buffer1 where
    loop: "bind_loop (word_of_int ?bp) Lbl Buffer = Some (Inr (Lbl1, Buffer1))"
    and p1: "Position Lbl1 = 0" and len1: "length Buffer1 = length Buffer"
    and sites1: "\<forall>S\<in>set Sites. S + sint (decodeBranchOffset (Buffer1 ! nat (S div 4))) = ?bp"
    and same1: "\<forall>i. (\<forall>S\<in>set Sites. nat (S div 4) \<noteq> i) \<longrightarrow> Buffer1 ! i = Buffer ! i"
    and upper1: "\<forall>i. Buffer1 ! i AND NOT kBranchOffsetMask
                     = Buffer ! i AND NOT kBranchOffsetMask"
    by blast
  have sbp: "sint (word_of_int ?bp :: 32 word) = ?bp"
    using assms(3) bp0 by (intro sint_of_int_32) auto
  let ?Lbl2 = "Lbl1\<lparr>Position := - ?bp - 4\<rparr>"
  have bnd: "bind Lbl Buffer = Some (Inr (?Lbl2, Buffer1))"
    using nb loop p1 bp0
    by (simp add: bind_def Let_def sbp bindTo_def isBound_def andThen_def check_def)
  have ld: "\<exists>w. buffer_load Buffer1 (word_of_int S) = Inr w
              \<and> S + sint (decodeBranchOffset w) = ?bp
              \<and> S + sint (push_bit 2 (signed_take_bit 23 w) :: 32 word)
                   + sint kPCReadOffset = ?bp" if "S \<in> set Sites" for S
  proof -
    from link_chain_sites_below [OF ch] that have v: "valid_position Buffer S"
      by blast
    then have v1: "valid_position Buffer1 S"
      by (simp add: valid_position_def buffer_size_def len1)
    have sS: "sint (word_of_int S :: 32 word) = S"
      using v assms(3) by (intro sint_of_int_32) (auto simp: valid_position_def)
    let ?w = "Buffer1 ! nat (S div 4)"
    have dw: "sint (decodeBranchOffset ?w) = ?bp - S"
      using sites1 that by fastforce
    have "sint (push_bit 2 (signed_take_bit 23 ?w) :: 32 word) + sint kPCReadOffset = ?bp - S"
      using v assms(3) by (intro sint_raw_displacement [OF dw]) (auto simp: valid_position_def)
    with v1 dw show ?thesis
      by (simp add: buffer_load_def andThen_def check_def sS)
  qed
  have "isBound ?Lbl2" and "getPosition ?Lbl2 = Inr ?bp"
    using bp0 by (simp_all add: isBound_def getPosition_def andThen_def check_def)
  with bnd len1 link_chain_distinct [OF ch] ld same1 upper1 show ?thesis
    by blast
qed

theorem bind_patches_forward_references_witness:
  "bind \<lparr>Position = 12\<rparr> [0xEAFFFFFE, 0xE320F000, 0x1AFFFFFF, 0xE320F000]
     = Some (Inr (\<lparr>Position = - 20\<rparr>, [0xEA000002, 0xE320F000, 0x1A000000, 0xE320F000]))
   \<and> forward_refs \<lparr>Position = 12\<rparr> [0xEAFFFFFE, 0xE320F000, 0x1AFFFFFF, 0xE320F000] [8, 0]
   \<and> buffer_size [0xEAFFFFFE, 0xE320F000, 0x1AFFFFFF, 0xE320F000] = 16
   \<and> 0 + sint (decodeBranchOffset 0xEA000002) = 16
   \<and> 8 + sint (decodeBranchOffset 0x1A000000) = 16"
proof -
  let ?Buffer = "[0xEAFFFFFE, 0xE320F000, 0x1AFFFFFF, 0xE320F000] :: AssemblerBuffer"
  have f0: "forward_refs \<lparr>Position = 0\<rparr> [] []"
    by (rule forward_refs.unused) simp
  have e1: "emitBranch \<lparr>Position = 0\<rparr> AL False [] = Inr (\<lparr>Position = 4\<rparr>, [0xEAFFFFFE])"
    by code_simp
  have f1: "forward_refs \<lparr>Position = 4\<rparr> [0xEAFFFFFE] [0]"
    using forward_refs.branch [OF f0 _ e1] by (simp add: isBound_def buffer_size_def)
  have f2: "forward_refs \<lparr>Position = 4\<rparr> [0xEAFFFFFE, 0xE320F000] [0]"
    using forward_refs.other [OF f1, of "0xE320F000"] by (simp add: emitInst_def)
  have e3: "emitBranch \<lparr>Position = 4\<rparr> NE False [0xEAFFFFFE, 0xE320F000]
      = Inr (\<lparr>Position = 12\<rparr>, [0xEAFFFFFE, 0xE320F000, 0x1AFFFFFF])"
    by code_simp
  have f3: "forward_refs \<lparr>Position = 12\<rparr> [0xEAFFFFFE, 0xE320F000, 0x1AFFFFFF] [8, 0]"
    using forward_refs.branch [OF f2 _ e3] by (simp add: isBound_def buffer_size_def)
  have f4: "forward_refs \<lparr>Position = 12\<rparr> ?Buffer [8, 0]"
    using forward_refs.other [OF f3, of "0xE320F000"] by (simp add: emitInst_def)
  have sz: "buffer_size ?Buffer = 16"
    by (simp add: buffer_size_def)
  have small: "buffer_size ?Buffer < 2 ^ 31"
    and near: "\<forall>S\<in>set [8, 0]. buffer_size ?Buffer - S - 8 < 2 ^ 25"
    by (simp_all add: sz)
  have ev: "bind \<lparr>Position = 12\<rparr> ?Buffer
      = Some (Inr (\<lparr>Position = - 20\<rparr>, [0xEA000002, 0xE320F000, 0x1A000000, 0xE320F000]))"
    by code_simp
  from bind_patches_forward_references [OF f4 near small] ev
  have "\<forall>S\<in>set [8, 0 :: int]. \<exists>w.
      buffer_load [0xEA000002, 0xE320F000, 0x1A000000, 0xE320F000] (word_of_int S) = Inr w
      \<and> S + sint (decodeBranchOffset w) = 16"
    by (auto simp: sz)
  then have "0 + sint (decodeBranchOffset 0xEA000002) = 16"
    and "8 + sint (decodeBranchOffset 0x1A000000) = 16"
    by (simp_all add: buffer_load_def valid_position_def buffer_size_def andThen_def check_def)
  with ev f4 sz show ?thesis
    by simp
qed

lemma forward_refs_replicate:
  "forward_refs Lbl Buffer Sites \<Longrightarrow> forward_refs Lbl (Buffer @ replicate n Value) Sites"
proof (induction n)
  case 0
  then show ?case by simp
next
  case (Suc n)
  have eq: "Buffer @ replicate (Suc n) Value = (Buffer @ replicate n Value) @ [Value]"
    by (simp only: replicate_Suc replicate_append_same append_assoc)
  have em: "emitInst Value (Buffer @ replicate n Value) = Inr ((Buffer @ replicate n Value) @ [Value])"
    by (simp only: emitInst_def)
  show ?case
    unfolding eq using Suc.IH [OF Suc.prems] em by (rule forward_refs.other)
qed

lemma not_canEncode_of_int:
  assumes "2 ^ 25 \<le> k" and "k < 2 ^ 31"
  shows "\<not> canEncodeBranchOffset (word_of_int k)"
proof -
  have s: "sint (word_of_int k :: 32 word) = k"
    using assms by (intro sint_of_int_32) auto
  have d: "sint (signed_drop_bit 2 (word_of_int k :: 32 word)) = k div 4"
    by (simp add: sint_signed_drop_bit_eq s drop_bit_eq_div)
  have "(2 :: int) ^ 23 \<le> k div 4"
    using assms(1) by simp
  then show ?thesis
    by (simp add: canEncodeBranchOffset_def IsInt_def kBranchOffsetBits_def d)
qed

lemma bind_far_first_site:
  fixes Rest :: AssemblerBuffer
  assumes "2 ^ 25 \<le> 4 * int (length Rest) - 4" and "4 * int (length Rest) + 4 < 2 ^ 31"
  shows "bind \<lparr>Position = 4\<rparr> (Inst # Rest) = Some (Inl (AssertFailed ''IsGoodOffset''))"
proof -
  define bp where "bp = 4 * int (length Rest) + 4"
  have sz: "buffer_size (Inst # Rest) = bp"
    by (simp add: buffer_size_def bp_def)
  have pos: "0 < bp"
    by (simp add: bp_def)
  have ld: "buffer_load (Inst # Rest) 0 = Inr Inst"
    using pos by (simp add: buffer_load_def valid_position_def sz andThen_def check_def)
  have "\<not> canEncodeBranchOffset (word_of_int (bp - 8))"
    using assms by (intro not_canEncode_of_int) (auto simp: bp_def)
  then have enc: "encodeBranchOffset (word_of_int bp) Inst = Inl (AssertFailed ''IsGoodOffset'')"
    by (simp add: encodeBranchOffset_def kPCReadOffset_def andThen_def check_def)
  have "bind_loop (word_of_int bp) \<lparr>Position = 4\<rparr> (Inst # Rest)
      = Some (Inl (AssertFailed ''IsGoodOffset''))"
    by (subst bind_loop.simps)
      (simp add: isLinked_def getLinkPosition_def andThen_def check_def ld enc)
  then show ?thesis
    by (simp add: bind_def sz isBound_def)
qed

text \<open>
  A branch at position 0 followed by \<open>2 ^ 23 + 2\<close> other words: the displacement to the
  end of the buffer does not fit the field, and \<^verbatim>\<open>bind\<close> fails on the range assertion of
  \<^verbatim>\<open>encodeBranchOffset\<close>.
\<close>

theorem bind_far_site_fails:
  "forward_refs \<lparr>Position = 4\<rparr> (0xEAFFFFFE # replicate 8388610 0xE320F000) [0]
   \<and> bind \<lparr>Position = 4\<rparr> (0xEAFFFFFE # replicate 8388610 0xE320F000)
       = Some (Inl (AssertFailed ''IsGoodOffset''))"
proof -
  have f0: "forward_refs \<lparr>Position = 0\<rparr> [] []"
    by (rule forward_refs.unused) simp
  have e1: "emitBranch \<lparr>Position = 0\<rparr> AL False [] = Inr (\<lparr>Position = 4\<rparr>, [0xEAFFFFFE])"
    by code_simp
  have f1: "forward_refs \<lparr>Position = 4\<rparr> [0xEAFFFFFE] [0]"
    using forward_refs.branch [OF f0 _ e1] by (simp add: isBound_def buffer_size_def)
  have "forward_refs \<lparr>Position = 4\<rparr> ([0xEAFFFFFE] @ replicate 8388610 0xE320F000) [0]"
    using f1 by (rule forward_refs_replicate)
  then have f2: "forward_refs \<lparr>Position = 4\<rparr> (0xEAFFFFFE # replicate 8388610 0xE320F000) [0]"
    by (simp only: append_Cons append_Nil)
  have len: "int (length (replicate 8388610 (0xE320F000 :: IValueT))) = 8388610"
    by (simp only: length_replicate of_nat_numeral)
  have far: "bind \<lparr>Position = 4\<rparr> (0xEAFFFFFE # replicate 8388610 0xE320F000)
       = Some (Inl (AssertFailed ''IsGoodOffset''))"
    by (rule bind_far_first_site) (simp_all only: len, simp_all)
  from f2 far show ?thesis
    by (rule conjI)
qed

end
